theory Spec2Isabelle
  imports Complex_Main "HOL-Library.Multiset" "HOL-Library.AList"
begin

section \<open>Python values, exceptions and strings\<close>

text \<open>
  Exceptions of the library and of Python that the modelled code raises or lets escape.
  A function that can raise returns \<open>error + 'a\<close>, with \<open>Inl\<close> for the exception.
  \<open>APIError\<close> stands for whatever \<open>session.api_request\<close> raises.
\<close>

datatype error =
    TypeError | ValueError | IndexError | KeyError | AttributeError
  | FileNotFoundError | IsADirectoryError | FileExistsError | NotADirectoryError
  | PermissionError | NotImplementedError
  | APIError
  | IllegalServername | ServerListEmptyError
  | VirtualDeviceNotFound | IllegalVirtualDevice
  | ConnectionNotFound | AddConnectionCredentialsError
  | AddConnectionFinishError | StartConnectionFinishError
  | StopConnectionFinishError | RemoveConnectionFinishError

text \<open>
  A dynamically typed argument: the code tests \<open>isinstance(x, str)\<close> and
  \<open>isinstance(x, list)\<close>, so the model keeps the run-time tag.
\<close>

datatype pyobj = Str string | IntObj int | NoneObj | ListObj "pyobj list"

text \<open>
  Strings are lists of code points below 256 (Latin-1); text with other code points is
  outside the model. The character classes are those of Python 3 on that range:
  \<open>str.isspace\<close>, and \<open>\d\<close>, \<open>\w\<close>, \<open>[A-Z]\<close> of module \<open>re\<close> on \<open>str\<close> patterns.
\<close>

definition code :: "char \<Rightarrow> nat" where
  "code c = of_char c"

definition isspace :: "char \<Rightarrow> bool" where
  "isspace c = ((9 \<le> code c \<and> code c \<le> 13) \<or> (28 \<le> code c \<and> code c \<le> 32)
                 \<or> code c = 133 \<or> code c = 160)"

definition re_digit :: "char \<Rightarrow> bool" where
  "re_digit c = (48 \<le> code c \<and> code c \<le> 57)"

definition re_upper :: "char \<Rightarrow> bool" where
  "re_upper c = (65 \<le> code c \<and> code c \<le> 90)"

definition re_word :: "char \<Rightarrow> bool" where
  "re_word c = ((48 \<le> code c \<and> code c \<le> 57) \<or> (65 \<le> code c \<and> code c \<le> 90) \<or> code c = 95
      \<or> (97 \<le> code c \<and> code c \<le> 122) \<or> code c = 170 \<or> code c = 178 \<or> code c = 179
      \<or> code c = 181 \<or> code c = 185 \<or> code c = 186 \<or> (188 \<le> code c \<and> code c \<le> 190)
      \<or> (192 \<le> code c \<and> code c \<le> 214) \<or> (216 \<le> code c \<and> code c \<le> 246)
      \<or> (248 \<le> code c \<and> code c \<le> 255))"

text \<open>\<open>str.strip()\<close>, \<open>str.rstrip()\<close> and \<open>str.lstrip("0")\<close>.\<close>

definition lstrip :: "string \<Rightarrow> string" where
  "lstrip s = dropWhile isspace s"

definition rstrip :: "string \<Rightarrow> string" where
  "rstrip s = rev (dropWhile isspace (rev s))"

definition strip :: "string \<Rightarrow> string" where
  "strip s = rstrip (lstrip s)"

definition lstrip_zeros :: "string \<Rightarrow> string" where
  "lstrip_zeros s = dropWhile (\<lambda>c. c = CHR ''0'') s"

text \<open>
  \<open>str.upper()\<close> and \<open>str.lower()\<close>. Sharp s becomes \<open>SS\<close>. The upper-case forms of
  the micro sign (181) and of y with diaeresis (255) lie above 255; the model leaves
  these two characters as they are.
\<close>

definition upper_char :: "char \<Rightarrow> string" where
  "upper_char c =
     (if (97 \<le> code c \<and> code c \<le> 122) \<or> (224 \<le> code c \<and> code c \<le> 254 \<and> code c \<noteq> 247)
      then [char_of (code c - 32)]
      else if code c = 223 then ''SS''
      else [c])"

definition upper :: "string \<Rightarrow> string" where
  "upper s = concat (map upper_char s)"

definition lower_char :: "char \<Rightarrow> char" where
  "lower_char c =
     (if (65 \<le> code c \<and> code c \<le> 90) \<or> (192 \<le> code c \<and> code c \<le> 222 \<and> code c \<noteq> 215)
      then char_of (code c + 32)
      else c)"

definition lower :: "string \<Rightarrow> string" where
  "lower s = map lower_char s"

text \<open>\<open>needle in s\<close> on strings: \<open>needle\<close> occurs as a contiguous piece of \<open>s\<close>.\<close>

definition startswith :: "string \<Rightarrow> string \<Rightarrow> bool" where
  "startswith s p = (take (length p) s = p)"

fun str_in :: "string \<Rightarrow> string \<Rightarrow> bool" where
  "str_in needle [] = (needle = [])"
| "str_in needle (c # cs) = (startswith (c # cs) needle \<or> str_in needle cs)"

text \<open>
  \<open>str.split()\<close> without argument: the maximal runs of non-whitespace characters.
  The first argument is the run read so far, reversed.
\<close>

fun split_from :: "string \<Rightarrow> string \<Rightarrow> string list" where
  "split_from cur [] = (if cur = [] then [] else [rev cur])"
| "split_from cur (c # cs) =
     (if isspace c then (if cur = [] then split_from [] cs else rev cur # split_from [] cs)
      else split_from (c # cur) cs)"

definition split :: "string \<Rightarrow> string list" where
  "split s = split_from [] s"

text \<open>
  \<open>f.readlines()\<close> on the text of a file (after Python's newline translation): the
  lines, each with its terminating line feed.
\<close>

definition LF :: char where
  "LF = CHR 0x0A"

fun readlines_from :: "string \<Rightarrow> string \<Rightarrow> string list" where
  "readlines_from cur [] = (if cur = [] then [] else [rev cur])"
| "readlines_from cur (c # cs) =
     (if c = LF then rev (c # cur) # readlines_from [] cs
      else readlines_from (c # cur) cs)"

definition readlines :: "string \<Rightarrow> string list" where
  "readlines text = readlines_from [] text"


section \<open>Servername grammar: \<open>ServerManager.is_servername_valid\<close>\<close>

text \<open>
  The two patterns are anchored, so \<open>search\<close> succeeds only from position 0, and every
  choice of the backtracking matcher is forced by the next character: a separator, a dash
  or \<open>TOR\<close> that is present must be consumed (the piece that follows cannot start with
  it), and the digit group must take every digit up to three (what follows is no digit).
  The matcher below therefore reads the pieces left to right. The pieces are functions
  from the rest of the input to the captured group and the new rest.

  \<open>$\<close> without \<open>MULTILINE\<close> matches at the end of the string and before a line feed
  that ends the string.
\<close>

definition two_word :: "string \<Rightarrow> (string \<times> string) option" where
  "two_word s = (case s of
      a # b # rest \<Rightarrow> if re_word a \<and> re_word b then Some ([a, b], rest) else None
    | _ \<Rightarrow> None)"

definition opt_sep :: "string \<Rightarrow> string option \<times> string" where
  "opt_sep s = (case s of
      c # rest \<Rightarrow> if c = CHR ''-'' \<or> c = CHR ''#'' then (Some [c], rest) else (None, s)
    | [] \<Rightarrow> (None, s))"

definition digits_1_3 :: "string \<Rightarrow> (string \<times> string) option" where
  "digits_1_3 s = (let d = takeWhile re_digit (take 3 s) in
      if d = [] then None else Some (d, drop (length d) s))"

definition opt_dash :: "string \<Rightarrow> string" where
  "opt_dash s = (case s of c # rest \<Rightarrow> if c = CHR ''-'' then rest else s | [] \<Rightarrow> s)"

definition opt_TOR :: "string \<Rightarrow> string option \<times> string" where
  "opt_TOR s = (if startswith s ''TOR'' then (Some ''TOR'', drop 3 s) else (None, s))"

definition at_end :: "string \<Rightarrow> bool" where
  "at_end s = (s = [] \<or> s = [LF])"

text \<open>\<open>(\d{1,3})-?(TOR)?$\<close>, the common tail of both patterns: groups number and tor.\<close>

definition number_tail :: "string \<Rightarrow> (string \<times> string option) option" where
  "number_tail s = (case digits_1_3 s of
      None \<Rightarrow> None
    | Some (number, r1) \<Rightarrow>
        (case opt_TOR (opt_dash r1) of (tor, r2) \<Rightarrow>
           if at_end r2 then Some (number, tor) else None))"

text \<open>\<open>^((\w\w)(-|#)?(\d{1,3})-?(TOR)?)$\<close>: groups 2, 4 and 5.\<close>

definition re_short :: "string \<Rightarrow> (string \<times> string \<times> string option) option" where
  "re_short s = (case two_word s of
      None \<Rightarrow> None
    | Some (country_code, r1) \<Rightarrow>
        (case number_tail (snd (opt_sep r1)) of
           None \<Rightarrow> None
         | Some (number, tor) \<Rightarrow> Some (country_code, number, tor)))"

text \<open>\<open>([A-Z]{2}|FREE)\<close>: the first alternative is tried first; when the rest of the
  pattern fails after it, the matcher comes back and tries \<open>FREE\<close>.\<close>

definition two_upper :: "string \<Rightarrow> (string \<times> string) option" where
  "two_upper s = (case s of
      a # b # rest \<Rightarrow> if re_upper a \<and> re_upper b then Some ([a, b], rest) else None
    | _ \<Rightarrow> None)"

definition sep_number_tail :: "string \<Rightarrow> (string \<times> string option) option" where
  "sep_number_tail s = number_tail (snd (opt_sep s))"

definition code2_tail :: "string \<Rightarrow> (string \<times> string \<times> string option) option" where
  "code2_tail s =
     (case (case two_upper s of
              None \<Rightarrow> None
            | Some (cc2, r) \<Rightarrow> map_option (Pair cc2) (sep_number_tail r)) of
        Some g \<Rightarrow> Some g
      | None \<Rightarrow>
          if startswith s ''FREE''
          then map_option (Pair ''FREE'') (sep_number_tail (drop 4 s))
          else None)"

text \<open>\<open>^(((\w\w)(-|#)?([A-Z]{2}|FREE))(-|#)?(\d{1,3})-?(TOR)?)$\<close>: groups 3, 5, 7, 8.\<close>

definition re_long :: "string \<Rightarrow> (string \<times> string \<times> string \<times> string option) option" where
  "re_long s = (case two_word s of
      None \<Rightarrow> None
    | Some (country_code, r1) \<Rightarrow>
        map_option (Pair country_code) (code2_tail (snd (opt_sep r1))))"

definition tor_suffix :: "string option \<Rightarrow> string" where
  "tor_suffix tor = (case tor of Some t \<Rightarrow> ''-'' @ t | None \<Rightarrow> [])"

text \<open>
  The local variable \<open>return_servername\<close> at the end of \<open>is_servername_valid\<close>:
  \<open>None\<close> is its initial value \<open>False\<close>, \<open>Some n\<close> the normalised name.
\<close>

definition return_servername :: "string \<Rightarrow> string option" where
  "return_servername servername =
     (case re_short servername of
        Some (country_code, number, tor) \<Rightarrow>
          Some ((country_code @ ''#'' @ lstrip_zeros number) @ tor_suffix tor)
      | None \<Rightarrow>
          (case re_long servername of
             Some (country_code, country_code2, number, tor) \<Rightarrow>
               Some ((country_code @ ''-'' @ country_code2 @ ''#'' @ lstrip_zeros number)
                     @ tor_suffix tor)
           | None \<Rightarrow> None))"

definition is_servername_valid :: "pyobj \<Rightarrow> error + bool" where
  "is_servername_valid servername =
     (case servername of
        Str s \<Rightarrow>
          Inr (case return_servername s of None \<Rightarrow> False | Some r \<Rightarrow> r \<noteq> [])
      | _ \<Rightarrow> Inl TypeError)"


text \<open>
  The digit group of an accepted servername: group 4 of the short pattern, group 7 of
  the long one.
\<close>

definition servername_number :: "string \<Rightarrow> string option" where
  "servername_number x = (case re_short x of
      Some (_, number, _) \<Rightarrow> Some number
    | None \<Rightarrow> (case re_long x of Some (_, _, number, _) \<Rightarrow> Some number | None \<Rightarrow> None))"


section \<open>The server catalog and its cache: \<open>ServerManager\<close>\<close>

text \<open>
  A logical server of the catalog with the keys the code reads, and its physical servers
  (key \<open>Servers\<close>). \<open>Score\<close> is a finite float; only its order is used, which is the
  order of the reals.
\<close>

record subserver =
  EntryIP :: string

record server =
  Name :: string
  Tier :: int
  Status :: int
  Features :: int
  Score :: real
  ExitCountry :: string
  Servers :: "subserver list"

text \<open>The JSON documents of the two endpoints, \<open>/vpn/logicals\<close> and \<open>/vpn\<close>.\<close>

datatype api_json = LogicalServers_doc "server list" | VPN_doc int

text \<open>
  A path of the file system names a directory or a regular file, each with its time of
  last modification; a regular file holds a JSON document. Times are \<open>datetime\<close> values
  counted in microseconds.
\<close>

datatype node = Directory int | RegularFile int api_json

text \<open>
  The calls to the operating system that the server manager makes on a path:
  \<open>os.stat\<close> (behind \<open>os.path.isdir\<close>, \<open>os.path.isfile\<close> and \<open>os.path.getmtime\<close>),
  \<open>os.mkdir\<close>, and \<open>open\<close> for reading and for writing.
\<close>

datatype os_call = Stat | Mkdir | OpenRead | OpenWrite

text \<open>
  The world the server manager acts on: the file system; what the operating system
  refuses; the clock (\<open>datetime.datetime.now()\<close>, taken as constant during one call);
  the answer of the session to a request for an endpoint (a document, or an exception);
  the requests made so far; and the two constants of \<open>lib.constants\<close>, which are not
  part of the sources at hand.

  The map \<open>fs\<close> says what a path names. Everything else that makes a call fail is
  \<open>os_refuses\<close>: for a call, the file system at the time of the call and a path, the
  exception with which the operating system refuses the call, if it does. That is
  \<open>FileNotFoundError\<close> for a parent directory that is missing, \<open>NotADirectoryError\<close>
  for a parent that is no directory, \<open>PermissionError\<close>, \<open>ValueError\<close> for a path it
  cannot read, or any other.
\<close>

record world =
  fs :: "string \<rightharpoonup> node"
  os_refuses :: "os_call \<Rightarrow> (string \<rightharpoonup> node) \<Rightarrow> string \<Rightarrow> error option"
  now :: int
  api :: "string \<Rightarrow> error + api_json"
  requests :: "string list"
  CACHED_SERVERLIST :: string
  PROTON_XDG_CACHE_HOME :: string

definition REFRESH_INTERVAL :: int where
  "REFRESH_INTERVAL = 15"

definition minutes :: "int \<Rightarrow> int" where
  "minutes n = n * 60000000"

text \<open>\<open>os.stat\<close>: the node that the path names, or the exception.\<close>

definition stat :: "world \<Rightarrow> string \<Rightarrow> error + node" where
  "stat w path = (case os_refuses w Stat (fs w) path of
      Some e \<Rightarrow> Inl e
    | None \<Rightarrow> (case fs w path of None \<Rightarrow> Inl FileNotFoundError | Some n \<Rightarrow> Inr n))"

text \<open>\<open>os.path.isdir\<close> and \<open>os.path.isfile\<close> answer \<open>False\<close> when \<open>os.stat\<close> raises.\<close>

definition isdir :: "world \<Rightarrow> string \<Rightarrow> bool" where
  "isdir w path = (case stat w path of Inr (Directory _) \<Rightarrow> True | _ \<Rightarrow> False)"

definition isfile :: "world \<Rightarrow> string \<Rightarrow> bool" where
  "isfile w path = (case stat w path of Inr (RegularFile _ _) \<Rightarrow> True | _ \<Rightarrow> False)"

text \<open>\<open>os.path.getmtime\<close> raises what \<open>os.stat\<close> raises.\<close>

definition getmtime :: "world \<Rightarrow> string \<Rightarrow> error + int" where
  "getmtime w path = (case stat w path of
      Inl e \<Rightarrow> Inl e
    | Inr (Directory t) \<Rightarrow> Inr t
    | Inr (RegularFile t _) \<Rightarrow> Inr t)"

text \<open>\<open>os.mkdir\<close>.\<close>

definition mkdir :: "world \<Rightarrow> string \<Rightarrow> (error + unit) \<times> world" where
  "mkdir w path = (case os_refuses w Mkdir (fs w) path of
      Some e \<Rightarrow> (Inl e, w)
    | None \<Rightarrow>
        (case fs w path of
           None \<Rightarrow> (Inr (), w\<lparr>fs := (fs w)(path \<mapsto> Directory (now w))\<rparr>)
         | Some _ \<Rightarrow> (Inl FileExistsError, w)))"

text \<open>\<open>with open(path, "w") as f: json.dump(data, f)\<close>.\<close>

definition write_json :: "world \<Rightarrow> string \<Rightarrow> api_json \<Rightarrow> (error + unit) \<times> world" where
  "write_json w path data = (case os_refuses w OpenWrite (fs w) path of
      Some e \<Rightarrow> (Inl e, w)
    | None \<Rightarrow>
        (case fs w path of
           Some (Directory _) \<Rightarrow> (Inl IsADirectoryError, w)
         | _ \<Rightarrow> (Inr (), w\<lparr>fs := (fs w)(path \<mapsto> RegularFile (now w) data)\<rparr>)))"

text \<open>\<open>with open(path, "r") as f: json.load(f)\<close>.\<close>

definition read_json :: "world \<Rightarrow> string \<Rightarrow> error + api_json" where
  "read_json w path = (case os_refuses w OpenRead (fs w) path of
      Some e \<Rightarrow> Inl e
    | None \<Rightarrow>
        (case fs w path of
           None \<Rightarrow> Inl FileNotFoundError
         | Some (Directory _) \<Rightarrow> Inl IsADirectoryError
         | Some (RegularFile _ data) \<Rightarrow> Inr data))"

text \<open>\<open>session.api_request(endpoint=...)\<close>: the request is made, then answered.\<close>

definition api_request :: "world \<Rightarrow> string \<Rightarrow> (error + api_json) \<times> world" where
  "api_request w endpoint = (api w endpoint, w\<lparr>requests := requests w @ [endpoint]\<rparr>)"

text \<open>
  \<open>validate_session_protocol\<close>: the session is a \<open>Session\<close> and the protocol a string by
  their types here, which leaves the test for the empty protocol.
\<close>

definition validate_session_protocol :: "string \<Rightarrow> error + unit" where
  "validate_session_protocol protocol =
     (if length protocol = 0 then Inl ValueError else Inr ())"

text \<open>The statement that makes the cache directory when \<open>os.path.isdir\<close> denies it.\<close>

definition ensure_cache_home :: "world \<Rightarrow> (error + unit) \<times> world" where
  "ensure_cache_home w =
     (if \<not> isdir w (PROTON_XDG_CACHE_HOME w) then mkdir w (PROTON_XDG_CACHE_HOME w)
      else (Inr (), w))"

text \<open>
  The \<open>try\<close> statement around \<open>os.path.getmtime\<close>: \<open>FileNotFoundError\<close> gives the
  present time, every other exception escapes.
\<close>

definition last_modified :: "world \<Rightarrow> string \<Rightarrow> error + int" where
  "last_modified w path = (case getmtime w path of
      Inr t \<Rightarrow> Inr t
    | Inl e \<Rightarrow> if e = FileNotFoundError then Inr (now w) else Inl e)"

definition cache_servers :: "world \<Rightarrow> bool \<Rightarrow> string \<Rightarrow> (error + unit) \<times> world" where
  "cache_servers w force cached_serverlist =
     (if length cached_serverlist = 0 then (Inl FileNotFoundError, w)
      else if isdir w cached_serverlist then (Inl IsADirectoryError, w)
      else
        (case ensure_cache_home w of
           (Inl e, w1) \<Rightarrow> (Inl e, w1)
         | (Inr _, w1) \<Rightarrow>
             (case last_modified w1 cached_serverlist of
                Inl e \<Rightarrow> (Inl e, w1)
              | Inr last_modified_time \<Rightarrow>
                  let now_time = now w1;
                      time_ago = now_time - minutes REFRESH_INTERVAL
                  in
                    if \<not> isfile w1 cached_serverlist
                       \<or> (time_ago > last_modified_time \<or> force)
                    then
                      (case api_request w1 ''/vpn/logicals'' of
                         (Inl e, w2) \<Rightarrow> (Inl e, w2)
                       | (Inr data, w2) \<Rightarrow> write_json w2 cached_serverlist data)
                    else (Inr (), w1))))"

text \<open>
  The refresh policy in the words of the specification: the cache file is stale when
  it was last modified more than the refresh interval before now; a refresh is due when
  the file is absent, or stale, or the caller forces it.
\<close>

definition cache_stale :: "world \<Rightarrow> string \<Rightarrow> bool" where
  "cache_stale w path = (case stat w path of
      Inr (RegularFile last_modified_time _) \<Rightarrow>
        now w - last_modified_time > minutes REFRESH_INTERVAL
    | _ \<Rightarrow> False)"

definition refresh_due :: "world \<Rightarrow> bool \<Rightarrow> string \<Rightarrow> bool" where
  "refresh_due w force path = (force \<or> \<not> isfile w path \<or> cache_stale w path)"

definition fetch_user_tier :: "world \<Rightarrow> (error + int) \<times> world" where
  "fetch_user_tier w =
     (case api_request w ''/vpn'' of
        (Inl e, w1) \<Rightarrow> (Inl e, w1)
      | (Inr (VPN_doc max_tier), w1) \<Rightarrow> (Inr max_tier, w1)
      | (Inr (LogicalServers_doc _), w1) \<Rightarrow> (Inl KeyError, w1))"

definition filter_servers :: "world \<Rightarrow> (error + server list) \<times> world" where
  "filter_servers w =
     (case read_json w (CACHED_SERVERLIST w) of
        Inl e \<Rightarrow> (Inl e, w)
      | Inr server_data \<Rightarrow>
          (case fetch_user_tier w of
             (Inl e, w1) \<Rightarrow> (Inl e, w1)
           | (Inr user_tier, w1) \<Rightarrow>
               (case server_data of
                  VPN_doc _ \<Rightarrow> (Inl KeyError, w1)
                | LogicalServers_doc servers \<Rightarrow>
                    (Inr (filter (\<lambda>server. Tier server \<le> user_tier \<and> Status server = 1)
                            servers), w1))))"

text \<open>\<open>extract_server_value(servername, "Servers", servers)\<close> and \<open>generate_ip_list\<close>.\<close>

definition extract_server_value :: "string \<Rightarrow> server list \<Rightarrow> error + subserver list" where
  "extract_server_value servername servers =
     (case map Servers (filter (\<lambda>server. Name server = servername) servers) of
        [] \<Rightarrow> Inl IndexError
      | v # _ \<Rightarrow> Inr v)"

definition generate_ip_list :: "string \<Rightarrow> server list \<Rightarrow> error + string list" where
  "generate_ip_list servername servers =
     (case extract_server_value servername servers of
        Inl e \<Rightarrow> Inl IndexError
      | Inr subservers \<Rightarrow> Inr (map EntryIP subservers))"

text \<open>
  \<open>random.choice(seq)\<close>: \<open>IndexError\<close> on the empty sequence, else the element at a
  random index below the length. The draw of the generator is an argument; every index
  below the length is the result for some draw.
\<close>

definition choice :: "nat \<Rightarrow> 'a list \<Rightarrow> error + 'a" where
  "choice draw seq = (if seq = [] then Inl IndexError else Inr (seq ! (draw mod length seq)))"

text \<open>
  \<open>get_fastest_server\<close>, in two steps: the server chosen, then its name.
  \<open>sorted\<close> is stable, as \<open>sort_key\<close> is.
\<close>

definition fastest_choice :: "nat \<Rightarrow> server list \<Rightarrow> error + server" where
  "fastest_choice draw server_pool =
     (let fastest_pool = sort_key Score server_pool;
          pool_size = (if length fastest_pool \<ge> 50 then 4 else 1)
      in choice draw (take pool_size fastest_pool))"

definition get_fastest_server :: "nat \<Rightarrow> server list \<Rightarrow> error + string" where
  "get_fastest_server draw server_pool = map_sum id Name (fastest_choice draw server_pool)"

text \<open>
  The end of every strategy: the IP list of the chosen name, \<open>IndexError\<close> turned into
  \<open>IllegalServername\<close>. The result is the pair handed to
  \<open>cert_manager.generate_vpn_cert\<close>.
\<close>

definition finish_selection :: "string \<Rightarrow> server list \<Rightarrow> error + string \<times> string list" where
  "finish_selection servername servers =
     (case generate_ip_list servername servers of
        Inl _ \<Rightarrow> Inl IllegalServername
      | Inr ip_list \<Rightarrow> Inr (servername, ip_list))"

definition excluded_features :: "int list" where
  "excluded_features = [1, 2]"

definition fastest :: "nat \<Rightarrow> world \<Rightarrow> string \<Rightarrow> (error + string \<times> string list) \<times> world" where
  "fastest draw w protocol =
     (case validate_session_protocol protocol of
        Inl e \<Rightarrow> (Inl e, w)
      | Inr _ \<Rightarrow>
          (case cache_servers w False (CACHED_SERVERLIST w) of
             (Inl e, w1) \<Rightarrow> (Inl e, w1)
           | (Inr _, w1) \<Rightarrow>
               (case filter_servers w1 of
                  (Inl e, w2) \<Rightarrow> (Inl e, w2)
                | (Inr servers, w2) \<Rightarrow>
                    let server_pool =
                          filter (\<lambda>server. Features server \<notin> set excluded_features) servers
                    in (case get_fastest_server draw server_pool of
                          Inl e \<Rightarrow> (Inl e, w2)
                        | Inr servername \<Rightarrow> (finish_selection servername servers, w2)))))"

text \<open>
  \<open>feature_f\<close>: \<open>args\<close> is the tuple of the extra positional arguments. The message of
  the \<open>TypeError\<close> for a first argument that is no list is not modelled.
\<close>

definition allowed_features :: "(string \<times> int) list" where
  "allowed_features = [(''sc'', 1), (''tor'', 2), (''p2p'', 4), (''stream'', 8), (''ipv6'', 16)]"

definition feature_f ::
  "nat \<Rightarrow> world \<Rightarrow> string \<Rightarrow> pyobj list \<Rightarrow> (error + string \<times> string list) \<times> world" where
  "feature_f draw w protocol args =
     (case validate_session_protocol protocol of
        Inl e \<Rightarrow> (Inl e, w)
      | Inr _ \<Rightarrow>
          (case args of
             [] \<Rightarrow> (Inl ValueError, w)
           | ListObj [] # _ \<Rightarrow> (Inl IndexError, w)
           | ListObj (Str literal # _) # _ \<Rightarrow>
               (let literal_feature = lower (strip literal) in
                case map_of allowed_features literal_feature of
                  None \<Rightarrow> (Inl ValueError, w)
                | Some feature \<Rightarrow>
                    (case cache_servers w False (CACHED_SERVERLIST w) of
                       (Inl e, w1) \<Rightarrow> (Inl e, w1)
                     | (Inr _, w1) \<Rightarrow>
                         (case filter_servers w1 of
                            (Inl e, w2) \<Rightarrow> (Inl e, w2)
                          | (Inr servers, w2) \<Rightarrow>
                              let server_pool = filter (\<lambda>s. Features s = feature) servers in
                              if length server_pool = 0 then (Inl ServerListEmptyError, w2)
                              else
                                (case get_fastest_server draw server_pool of
                                   Inl e \<Rightarrow> (Inl e, w2)
                                 | Inr servername \<Rightarrow>
                                     (finish_selection servername servers, w2)))))
           | ListObj (_ # _) # _ \<Rightarrow> (Inl AttributeError, w)
           | _ # _ \<Rightarrow> (Inl TypeError, w)))"

definition random_c :: "nat \<Rightarrow> world \<Rightarrow> string \<Rightarrow> (error + string \<times> string list) \<times> world" where
  "random_c draw w protocol =
     (case validate_session_protocol protocol of
        Inl e \<Rightarrow> (Inl e, w)
      | Inr _ \<Rightarrow>
          (case filter_servers w of
             (Inl e, w1) \<Rightarrow> (Inl e, w1)
           | (Inr servers, w1) \<Rightarrow>
               (case choice draw servers of
                  Inl e \<Rightarrow> (Inl e, w1)
                | Inr server \<Rightarrow> (finish_selection (Name server) servers, w1))))"

text \<open>
  \<open>direct\<close>: \<open>args[0]\<close> is the servername, or a list whose element 1 is. The name looked
  up is the stripped, upper-cased input; the name validated is the input as given. In
  the last test the statement that follows the assignment of the message applies unary
  \<open>+\<close> to a string, which raises \<open>TypeError\<close> before the \<open>ValueError\<close> is reached.
\<close>

definition direct :: "world \<Rightarrow> string \<Rightarrow> pyobj list \<Rightarrow> (error + string \<times> string list) \<times> world" where
  "direct w protocol args =
     (case validate_session_protocol protocol of
        Inl e \<Rightarrow> (Inl e, w)
      | Inr _ \<Rightarrow>
          (case args of
             [] \<Rightarrow> (Inl ValueError, w)
           | arg0 # _ \<Rightarrow>
               (case (case arg0 of
                        ListObj l \<Rightarrow> (if length l > 1 then Inr (l ! 1) else Inl IndexError)
                      | _ \<Rightarrow> Inr arg0) of
                  Inl e \<Rightarrow> (Inl e, w)
                | Inr (Str user_input) \<Rightarrow>
                    (let servername = upper (strip user_input) in
                     case is_servername_valid (Str user_input) of
                       Inl e \<Rightarrow> (Inl e, w)
                     | Inr False \<Rightarrow> (Inl IllegalServername, w)
                     | Inr True \<Rightarrow>
                         (case cache_servers w False (CACHED_SERVERLIST w) of
                            (Inl e, w1) \<Rightarrow> (Inl e, w1)
                          | (Inr _, w1) \<Rightarrow>
                              (case filter_servers w1 of
                                 (Inl e, w2) \<Rightarrow> (Inl e, w2)
                               | (Inr servers, w2) \<Rightarrow>
                                   (case finish_selection servername servers of
                                      Inl e \<Rightarrow> (Inl e, w2)
                                    | Inr r \<Rightarrow>
                                        if servername \<notin> set (map Name servers)
                                        then (Inl TypeError, w2)
                                        else (Inr r, w2)))))
                | Inr _ \<Rightarrow> (Inl AttributeError, w))))"


section \<open>The connection profile: \<open>ConnectionManager.extract_virtual_device_type\<close>\<close>

definition virtual_dev_type_list :: "string list" where
  "virtual_dev_type_list = [''tun'', ''tap'']"

text \<open>\<open>list.index(x)\<close>: the first position of \<open>x\<close>, \<open>None\<close> for \<open>ValueError\<close>.\<close>

fun list_index :: "'a list \<Rightarrow> 'a \<Rightarrow> nat option" where
  "list_index [] x = None"
| "list_index (y # ys) x = (if y = x then Some 0 else map_option Suc (list_index ys x))"

text \<open>The body of the \<open>with\<close> block, on the lines read.\<close>

definition device_type_of_lines :: "string list \<Rightarrow> error + string" where
  "device_type_of_lines content_list =
     (let dev_type = map rstrip (filter (str_in ''dev'') content_list) in
      case dev_type of
        [] \<Rightarrow> Inl VirtualDeviceNotFound
      | first # _ \<Rightarrow>
          (case split first of
             _ # dev_type # _ \<Rightarrow>
               (case list_index virtual_dev_type_list dev_type of
                  None \<Rightarrow> Inl IllegalVirtualDevice
                | Some index \<Rightarrow> Inr (virtual_dev_type_list ! index))
           | _ \<Rightarrow> Inl VirtualDeviceNotFound))"

text \<open>The files of profiles: a path has a text or does not exist.\<close>

definition extract_virtual_device_type :: "(string \<rightharpoonup> string) \<Rightarrow> string \<Rightarrow> error + string" where
  "extract_virtual_device_type files filename =
     (case files filename of
        None \<Rightarrow> Inl FileNotFoundError
      | Some text \<Rightarrow> device_type_of_lines (readlines text))"


section \<open>The connection lifecycle: \<open>ConnectionManager\<close>\<close>

text \<open>
  A connection of the network-configuration service: its id, its type tag, and its VPN
  setting (data items and secrets) when it has one.
\<close>

record vpn_setting =
  data :: "(string \<times> string) list"
  secrets :: "(string \<times> string) list"

record connection =
  get_id :: string
  get_connection_type :: string
  get_setting_vpn :: "vpn_setting option"

definition add_data_item :: "string \<Rightarrow> string \<Rightarrow> vpn_setting \<Rightarrow> vpn_setting" where
  "add_data_item k v vs = vs\<lparr>data := AList.update k v (data vs)\<rparr>"

definition add_secret :: "string \<Rightarrow> string \<Rightarrow> vpn_setting \<Rightarrow> vpn_setting" where
  "add_secret k v vs = vs\<lparr>secrets := AList.update k v (secrets vs)\<rparr>"

definition get_data_item :: "string \<Rightarrow> vpn_setting \<Rightarrow> string option" where
  "get_data_item k vs = map_of (data vs) k"

text \<open>
  The state: the records the service knows (\<open>client.get_connections()\<close>), the active
  ones (\<open>client.get_active_connections()\<close>, each given by its connection), and the
  profile files.
\<close>

record nm =
  connections :: "connection list"
  active_connections :: "connection list"
  files :: "string \<rightharpoonup> string"

datatype callback_type = Add | Start | Stop | Remove

text \<open>
  What surrounds the manager: its fixed device name, the plugin's import of a profile
  file, the answer of the service to each kind of asynchronous operation (\<open>True\<close>: the
  finish function raises), and whether the environment flag \<open>ENV_CI_NAME\<close> is set.
\<close>

record surroundings =
  virtual_device_name :: string
  import_connection_from_file :: "(string \<rightharpoonup> string) \<Rightarrow> string \<Rightarrow> error + connection"
  finish_raises :: "callback_type \<Rightarrow> bool"
  ENV_CI :: bool

definition finish_exception :: "callback_type \<Rightarrow> error" where
  "finish_exception t = (case t of
      Add \<Rightarrow> AddConnectionFinishError
    | Start \<Rightarrow> StartConnectionFinishError
    | Stop \<Rightarrow> StopConnectionFinishError
    | Remove \<Rightarrow> RemoveConnectionFinishError)"

text \<open>
  The loop of \<open>get_proton_connection\<close> over the connections: the position of the
  first connection of type \<open>vpn\<close> whose data item \<open>dev\<close> is the device name. A
  connection of type \<open>vpn\<close> without VPN setting makes \<open>vpn_settings.get_data_item\<close>
  raise \<open>AttributeError\<close>.
\<close>

fun proton_position :: "string \<Rightarrow> connection list \<Rightarrow> error + nat option" where
  "proton_position name [] = Inr None"
| "proton_position name (conn # all_cons) =
     (if get_connection_type conn = ''vpn'' then
        (case get_setting_vpn conn of
           None \<Rightarrow> Inl AttributeError
         | Some vpn_settings \<Rightarrow>
             if get_data_item ''dev'' vpn_settings = Some name then Inr (Some 0)
             else map_sum id (map_option Suc) (proton_position name all_cons))
      else map_sum id (map_option Suc) (proton_position name all_cons))"

datatype connection_kind = all_connections | active_connections_kind

text \<open>\<open>get_proton_connection\<close>: \<open>None\<close> is the tuple \<open>(False,)\<close>, \<open>Some i\<close> the
  connection at position \<open>i\<close> of the list asked for.\<close>

definition get_proton_connection ::
  "surroundings \<Rightarrow> connection_kind \<Rightarrow> nm \<Rightarrow> error + nat option" where
  "get_proton_connection k connection_type s =
     proton_position (virtual_device_name k)
       (case connection_type of
          all_connections \<Rightarrow> connections s
        | active_connections_kind \<Rightarrow> active_connections s)"

definition delete_at :: "nat \<Rightarrow> 'a list \<Rightarrow> 'a list" where
  "delete_at i xs = take i xs @ drop (Suc i) xs"

text \<open>
  \<open>stop_connection\<close>: \<open>Inr False\<close> is the return value \<open>False\<close> (nothing active),
  \<open>Inr True\<close> the return after the deactivation. An exception of the callback is taken
  as the failure of the operation that waits for it.
\<close>

definition stop_connection :: "surroundings \<Rightarrow> nm \<Rightarrow> (error + bool) \<times> nm" where
  "stop_connection k s =
     (case get_proton_connection k active_connections_kind s of
        Inl e \<Rightarrow> (Inl e, s)
      | Inr None \<Rightarrow> (Inr False, s)
      | Inr (Some i) \<Rightarrow>
          if finish_raises k Stop then (Inl (finish_exception Stop), s)
          else (Inr True, s\<lparr>active_connections := delete_at i (active_connections s)\<rparr>))"

definition remove_connection :: "surroundings \<Rightarrow> nm \<Rightarrow> (error + unit) \<times> nm" where
  "remove_connection k s =
     (case get_proton_connection k all_connections s of
        Inl e \<Rightarrow> (Inl e, s)
      | Inr None \<Rightarrow> (Inl ConnectionNotFound, s)
      | Inr (Some i) \<Rightarrow>
          (case stop_connection k s of
             (Inl e, s1) \<Rightarrow> (Inl e, s1)
           | (Inr _, s1) \<Rightarrow>
               if finish_raises k Remove then (Inl (finish_exception Remove), s1)
               else (Inr (), s1\<lparr>connections := delete_at i (connections s1)\<rparr>)))"

definition start_connection :: "surroundings \<Rightarrow> nm \<Rightarrow> (error + unit) \<times> nm" where
  "start_connection k s =
     (case get_proton_connection k all_connections s of
        Inl e \<Rightarrow> (Inl e, s)
      | Inr None \<Rightarrow> (Inl ConnectionNotFound, s)
      | Inr (Some i) \<Rightarrow>
          if finish_raises k Start then (Inl (finish_exception Start), s)
          else (Inr (), s\<lparr>active_connections := active_connections s @ [connections s ! i]\<rparr>))"

text \<open>\<open>set_virtual_device_type\<close>.\<close>

definition set_virtual_device_type ::
  "surroundings \<Rightarrow> (string \<rightharpoonup> string) \<Rightarrow> vpn_setting \<Rightarrow> string \<Rightarrow> error + vpn_setting" where
  "set_virtual_device_type k fls vpn_settings filename =
     (case extract_virtual_device_type fls filename of
        Inl e \<Rightarrow> Inl e
      | Inr virtual_device_type \<Rightarrow>
          Inr (add_data_item ''dev-type'' virtual_device_type
                 (add_data_item ''dev'' (virtual_device_name k) vpn_settings)))"

text \<open>
  \<open>add_connection\<close>. The caller's \<open>delete_cached_cert\<close> acts on the files and may
  raise. Filename, username and password are strings by their types.
\<close>

definition run_delete_cached_cert ::
  "(string \<Rightarrow> (string \<rightharpoonup> string) \<Rightarrow> (error + unit) \<times> (string \<rightharpoonup> string))
     \<Rightarrow> string \<Rightarrow> nm \<Rightarrow> (error + unit) \<times> nm" where
  "run_delete_cached_cert delete_cached_cert path s =
     (case delete_cached_cert path (files s) of (r, fls) \<Rightarrow> (r, s\<lparr>files := fls\<rparr>))"

text \<open>
  The probe of the caller's function: \<open>FileNotFoundError\<close> is passed over, every other
  exception becomes \<open>NotImplementedError\<close>.
\<close>

definition probe_delete_cached_cert ::
  "(string \<Rightarrow> (string \<rightharpoonup> string) \<Rightarrow> (error + unit) \<times> (string \<rightharpoonup> string))
     \<Rightarrow> nm \<Rightarrow> (error + unit) \<times> nm" where
  "probe_delete_cached_cert delete_cached_cert s =
     (case run_delete_cached_cert delete_cached_cert ''test'' s of
        (Inl e, s0) \<Rightarrow>
          if e = FileNotFoundError then (Inr (), s0) else (Inl NotImplementedError, s0)
      | (Inr _, s0) \<Rightarrow> (Inr (), s0))"

text \<open>The removal before the registration: \<open>ConnectionNotFound\<close> is passed over.\<close>

definition remove_existing :: "surroundings \<Rightarrow> nm \<Rightarrow> (error + unit) \<times> nm" where
  "remove_existing k s =
     (case remove_connection k s of
        (Inl e, s1) \<Rightarrow> if e = ConnectionNotFound then (Inr (), s1) else (Inl e, s1)
      | (Inr _, s1) \<Rightarrow> (Inr (), s1))"

definition add_connection ::
  "surroundings
     \<Rightarrow> (string \<Rightarrow> (string \<rightharpoonup> string) \<Rightarrow> (error + unit) \<times> (string \<rightharpoonup> string))
     \<Rightarrow> nm \<Rightarrow> string \<Rightarrow> string \<Rightarrow> string \<Rightarrow> (error + unit) \<times> nm" where
  "add_connection k delete_cached_cert s filename username password =
     (if strip filename = [] then (Inl ValueError, s)
      else if strip username = [] \<or> strip password = [] then (Inl ValueError, s)
      else
        (case probe_delete_cached_cert delete_cached_cert s of
           (Inl e, s0) \<Rightarrow> (Inl e, s0)
         | (Inr _, s0) \<Rightarrow>
             (case import_connection_from_file k (files s0) filename of
                Inl e \<Rightarrow> (Inl e, s0)
              | Inr connection \<Rightarrow>
                  (case get_setting_vpn connection of
                     None \<Rightarrow> (Inl AddConnectionCredentialsError, s0)
                   | Some vpn_settings0 \<Rightarrow>
                       (case set_virtual_device_type k (files s0)
                               (add_secret ''password'' password
                                  (add_data_item ''username'' username vpn_settings0))
                               filename of
                          Inl e \<Rightarrow> (Inl e, s0)
                        | Inr vpn_settings \<Rightarrow>
                            (case remove_existing k s0 of
                               (Inl e, s1) \<Rightarrow> (Inl e, s1)
                             | (Inr _, s1) \<Rightarrow>
                                 if finish_raises k Add then (Inl (finish_exception Add), s1)
                                 else
                                   (let s2 = s1\<lparr>connections := connections s1 @
                                          [connection\<lparr>get_setting_vpn := Some vpn_settings\<rparr>]\<rparr>
                                    in if \<not> ENV_CI k
                                       then run_delete_cached_cert delete_cached_cert filename s2
                                       else (Inr (), s2))))))))"

text \<open>
  The identification rule of \<open>get_proton_connection\<close> as a predicate, and the managed
  records of a state.
\<close>

definition managed :: "surroundings \<Rightarrow> connection \<Rightarrow> bool" where
  "managed k conn =
     (get_connection_type conn = ''vpn'' \<and>
      (case get_setting_vpn conn of
         None \<Rightarrow> False
       | Some vpn_settings \<Rightarrow> get_data_item ''dev'' vpn_settings = Some (virtual_device_name k)))"

definition managed_records :: "surroundings \<Rightarrow> nm \<Rightarrow> connection list" where
  "managed_records k s = filter (managed k) (connections s)"


section \<open>Example inputs\<close>

text \<open>A file system of profiles with one file.\<close>

definition one_file :: "string \<Rightarrow> string \<Rightarrow> (string \<rightharpoonup> string)" where
  "one_file path text = (\<lambda>p. if p = path then Some text else None)"


text \<open>A profile of three lines, the second of which is given.\<close>

definition profile_text :: "string \<Rightarrow> string" where
  "profile_text dev_line = ''client'' @ [LF] @ dev_line @ [LF] @ ''proto udp'' @ [LF]"


text \<open>A server of tier 0 that is up, with one physical server.\<close>

definition example_server :: "string \<Rightarrow> int \<Rightarrow> real \<Rightarrow> server" where
  "example_server name features score =
     \<lparr>Name = name, Tier = 0, Status = 1, Features = features, Score = score,
      ExitCountry = ''CH'', Servers = [\<lparr>EntryIP = ''10.0.0.1''\<rparr>]\<rparr>"

text \<open>
  A world at time 0 whose cache file holds the given catalog and was written at the
  given time; the operating system refuses nothing; the session answers \<open>/vpn\<close> with tier 2 and \<open>/vpn/logicals\<close> with the
  catalog.
\<close>

definition example_world :: "int \<Rightarrow> server list \<Rightarrow> world" where
  "example_world mtime servers =
     \<lparr>fs = (\<lambda>p. if p = ''/cache/serverlist.json''
                 then Some (RegularFile mtime (LogicalServers_doc servers))
                 else if p = ''/cache'' then Some (Directory mtime) else None),
      os_refuses = (\<lambda>call files path. None),
      now = 0,
      api = (\<lambda>e. if e = ''/vpn'' then Inr (VPN_doc 2)
                  else if e = ''/vpn/logicals'' then Inr (LogicalServers_doc servers)
                  else Inl APIError),
      requests = [],
      CACHED_SERVERLIST = ''/cache/serverlist.json'',
      PROTON_XDG_CACHE_HOME = ''/cache''\<rparr>"

text \<open>A pool of fifty servers with the scores 0 to 49.\<close>

definition pool_of_50 :: "server list" where
  "pool_of_50 = map (\<lambda>n. example_server ''CH#1'' 0 (real n)) [0..<50]"


text \<open>
  Surroundings of the connection manager: the device \<open>proton0\<close>; a plugin that imports
  an existing profile as a connection of type \<open>vpn\<close> with the device of the profile;
  a service that accepts every operation; no CI flag. The caller's function deletes the
  file given and raises \<open>FileNotFoundError\<close> when there is none.
\<close>

definition example_import :: "(string \<rightharpoonup> string) \<Rightarrow> string \<Rightarrow> error + connection" where
  "example_import fls filename = (case fls filename of
      None \<Rightarrow> Inl FileNotFoundError
    | Some _ \<Rightarrow> Inr \<lparr>get_id = filename, get_connection_type = ''vpn'',
                     get_setting_vpn = Some \<lparr>data = [(''dev'', ''tun'')], secrets = []\<rparr>\<rparr>)"

definition example_surroundings :: surroundings where
  "example_surroundings =
     \<lparr>virtual_device_name = ''proton0'', import_connection_from_file = example_import,
      finish_raises = (\<lambda>_. False), ENV_CI = False\<rparr>"

definition example_delete ::
  "string \<Rightarrow> (string \<rightharpoonup> string) \<Rightarrow> (error + unit) \<times> (string \<rightharpoonup> string)" where
  "example_delete path fls = (case fls path of
      None \<Rightarrow> (Inl FileNotFoundError, fls)
    | Some _ \<Rightarrow> (Inr (), fls(path := None)))"

text \<open>A state with no connection and two profiles.\<close>

definition example_nm :: nm where
  "example_nm =
     \<lparr>connections = [], active_connections = [],
      files = (\<lambda>p. if p = ''ch.ovpn'' \<or> p = ''se.ovpn''
                    then Some (profile_text ''dev tun'') else None)\<rparr>"


section \<open>Properties of the servername grammar\<close>

lemmas re_defs =
  return_servername_def re_short_def re_long_def two_word_def re_word_def code_def
  opt_sep_def number_tail_def digits_1_3_def re_digit_def opt_dash_def opt_TOR_def
  startswith_def at_end_def LF_def code2_tail_def two_upper_def re_upper_def
  sep_number_tail_def lstrip_zeros_def tor_suffix_def

lemma return_servername_lower_tor: "return_servername ''pt#01-tor'' = None"
  by (simp add: re_defs)

lemma return_servername_lower_long: "return_servername ''is-de01'' = None"
  by (simp add: re_defs)

lemma return_servername_lower_short: "return_servername ''pt1'' = Some ''pt#1''"
  by (simp add: re_defs)

lemma upper_strip_examples:
  "upper (strip ''pt1'') = ''PT1''"
  "upper (strip ''pt#01-tor'') = ''PT#01-TOR''"
  "upper (strip ''is-de01'') = ''IS-DE01''"
  by code_simp+

lemma return_servername_upper_examples:
  "return_servername ''PT1'' = Some ''PT#1''"
  "return_servername ''PT#01-TOR'' = Some ''PT#1-TOR''"
  "return_servername ''IS-DE01'' = Some ''IS-DE#1''"
  by (simp_all add: re_defs)

text \<open>
  C3 (the code departs from the claim). The claim: validation and normalisation are
  case-insensitive, \<open>pt1\<close>, \<open>pt#01-tor\<close> and \<open>is-de01\<close> are accepted and normalised to
  \<open>PT#1\<close>, \<open>PT#1-TOR\<close> and \<open>IS-DE#1\<close>. The code: \<open>direct\<close> computes the stripped,
  upper-cased name but validates the input as given, so \<open>pt#01-tor\<close> and \<open>is-de01\<close>
  are rejected with \<open>IllegalServername\<close> before the catalog is read, and \<open>pt1\<close> is
  normalised to \<open>pt#1\<close>; on the upper-cased names the validation gives the three
  canonical forms of the claim.
\<close>

theorem direct_validates_raw_input:
  "direct w ''udp'' [Str ''pt#01-tor''] = (Inl IllegalServername, w)
   \<and> direct w ''udp'' [Str ''is-de01''] = (Inl IllegalServername, w)
   \<and> is_servername_valid (Str ''pt#01-tor'') = Inr False
   \<and> is_servername_valid (Str ''is-de01'') = Inr False
   \<and> return_servername ''pt1'' = Some ''pt#1''
   \<and> return_servername (upper (strip ''pt1'')) = Some ''PT#1''
   \<and> return_servername (upper (strip ''pt#01-tor'')) = Some ''PT#1-TOR''
   \<and> return_servername (upper (strip ''is-de01'')) = Some ''IS-DE#1''"
  by (simp add: direct_def validate_session_protocol_def is_servername_valid_def
      return_servername_lower_tor return_servername_lower_long
      return_servername_lower_short upper_strip_examples
      return_servername_upper_examples)

text \<open>
  C8 (amended). The claim: \<open>is_servername_valid\<close> returns a boolean for every input and
  never raises. The code raises \<open>TypeError\<close> for an input that is no string, here
  \<open>None\<close>.
\<close>

theorem is_servername_valid_None_raises:
  "is_servername_valid NoneObj = Inl TypeError"
  by (simp add: is_servername_valid_def)

text \<open>
  C8, as amended. For every string \<open>is_servername_valid\<close> returns a boolean and does
  not raise; for an integer, \<open>None\<close> or a list it raises \<open>TypeError\<close>.
\<close>

theorem is_servername_valid_total_on_strings:
  "(\<exists>b. is_servername_valid (Str s) = Inr b)
   \<and> is_servername_valid (IntObj n) = Inl TypeError
   \<and> is_servername_valid NoneObj = Inl TypeError
   \<and> is_servername_valid (ListObj l) = Inl TypeError"
  by (simp add: is_servername_valid_def)

text \<open>
  C9 (the code departs from the claim). The claim: normalising a normalised servername
  gives the same string, for every accepted servername. The code strips every zero of
  the number, so the accepted name \<open>PT#0\<close> is normalised to \<open>PT#\<close>, which the
  grammar does not accept: it has no normal form.
\<close>

theorem return_servername_zero_number:
  "is_servername_valid (Str ''PT#0'') = Inr True
   \<and> return_servername ''PT#0'' = Some ''PT#''
   \<and> return_servername ''PT#'' = None
   \<and> is_servername_valid (Str ''PT#'') = Inr False"
  by (simp add: is_servername_valid_def re_defs)


section \<open>Properties of \<open>extract_virtual_device_type\<close>\<close>

lemma filter_none: "\<forall>l\<in>set pre. \<not> P l \<Longrightarrow> filter P (pre @ xs) = filter P xs"
  by (induction pre) auto

lemma rstrip_decompose: "line = rstrip line @ rev (takeWhile isspace (rev line))"
proof -
  have "rev (rev line) = rev (takeWhile isspace (rev line) @ dropWhile isspace (rev line))"
    by (simp only: takeWhile_dropWhile_id)
  then show ?thesis by (simp only: rstrip_def rev_append rev_rev_ident)
qed

lemma str_in_prefix: "needle \<noteq> [] \<Longrightarrow> str_in needle ((needle @ a) @ b)"
  by (cases needle) (simp_all add: startswith_def)

lemma str_in_rstrip:
  assumes "rstrip line = ''dev'' @ a"
  shows "str_in ''dev'' line"
proof -
  have "line = (''dev'' @ a) @ rev (takeWhile isspace (rev line))"
    using rstrip_decompose[of line] assms by simp
  then show ?thesis using str_in_prefix[of "''dev''" a] by (metis list.distinct(1))
qed

lemmas str_defs =
  split_def rstrip_def isspace_def code_def LF_def startswith_def virtual_dev_type_list_def

lemma first_dev_line:
  assumes "\<forall>l\<in>set pre. \<not> str_in ''dev'' l" and "rstrip line = ''dev'' @ a"
  shows "device_type_of_lines (pre @ line # post) =
     (case split (''dev'' @ a) of
        _ # dev_type # _ \<Rightarrow>
          (case list_index virtual_dev_type_list dev_type of
             None \<Rightarrow> Inl IllegalVirtualDevice
           | Some index \<Rightarrow> Inr (virtual_dev_type_list ! index))
      | _ \<Rightarrow> Inl VirtualDeviceNotFound)"
  using assms str_in_rstrip[OF assms(2)]
  by (simp add: device_type_of_lines_def filter_none)

lemma no_dev_line:
  "\<forall>l\<in>set content_list. \<not> str_in ''dev'' l \<Longrightarrow>
   device_type_of_lines content_list = Inl VirtualDeviceNotFound"
  using filter_none[of content_list "str_in ''dev''" "[]"]
  by (simp add: device_type_of_lines_def)

lemma split_examples:
  "split ''dev tun'' = [''dev'', ''tun'']"
  "split ''dev tap'' = [''dev'', ''tap'']"
  "split ''dev tun0'' = [''dev'', ''tun0'']"
  "split ''dev ppp0'' = [''dev'', ''ppp0'']"
  by (simp_all add: str_defs)

lemma readlines_profile_text:
  "readlines (profile_text ''dev tun'') =
     [''client'' @ [LF]] @ (''dev tun'' @ [LF]) # [''proto udp'' @ [LF]]"
  "readlines (profile_text ''dev ppp0'') =
     [''client'' @ [LF]] @ (''dev ppp0'' @ [LF]) # [''proto udp'' @ [LF]]"
  "readlines (profile_text ''remote x'') =
     [''client'' @ [LF], ''remote x'' @ [LF], ''proto udp'' @ [LF]]"
  by (simp_all add: readlines_def profile_text_def LF_def)

text \<open>
  C2 (amended). The claim: a profile whose first line with \<open>dev\<close> is \<open>dev tun0\<close>
  gives \<open>tun\<close>. The code takes the second word of that line as it stands and accepts
  only \<open>tun\<close> and \<open>tap\<close>, so \<open>dev tun0\<close> raises \<open>IllegalVirtualDevice\<close>.
\<close>

theorem extract_virtual_device_type_tun0:
  "extract_virtual_device_type (one_file ''client.ovpn'' (''dev tun0'' @ [LF])) ''client.ovpn''
     = Inl IllegalVirtualDevice"
  by (simp add: extract_virtual_device_type_def one_file_def readlines_def
      device_type_of_lines_def str_defs)

text \<open>
  C2, as amended. For a profile file that exists: when no line contains \<open>dev\<close>, the
  function raises \<open>VirtualDeviceNotFound\<close>; when the first line that contains \<open>dev\<close>
  is, up to white space at its end, \<open>dev tun\<close> (or \<open>dev tap\<close>), it returns \<open>tun\<close>
  (or \<open>tap\<close>); when that line is \<open>dev tun0\<close> or \<open>dev ppp0\<close>, it raises
  \<open>IllegalVirtualDevice\<close>.
\<close>

theorem extract_virtual_device_type_cases:
  assumes "fls filename = Some text"
  shows "((\<forall>l\<in>set (readlines text). \<not> str_in ''dev'' l) \<longrightarrow>
            extract_virtual_device_type fls filename = Inl VirtualDeviceNotFound)
       \<and> (readlines text = pre @ line # post \<and> (\<forall>l\<in>set pre. \<not> str_in ''dev'' l) \<longrightarrow>
            (rstrip line = ''dev tun'' \<longrightarrow>
               extract_virtual_device_type fls filename = Inr ''tun'')
          \<and> (rstrip line = ''dev tap'' \<longrightarrow>
               extract_virtual_device_type fls filename = Inr ''tap'')
          \<and> (rstrip line = ''dev tun0'' \<longrightarrow>
               extract_virtual_device_type fls filename = Inl IllegalVirtualDevice)
          \<and> (rstrip line = ''dev ppp0'' \<longrightarrow>
               extract_virtual_device_type fls filename = Inl IllegalVirtualDevice))"
proof (intro conjI impI)
  assume "\<forall>l\<in>set (readlines text). \<not> str_in ''dev'' l"
  then show "extract_virtual_device_type fls filename = Inl VirtualDeviceNotFound"
    using assms by (simp add: extract_virtual_device_type_def no_dev_line)
next
  assume h: "readlines text = pre @ line # post \<and> (\<forall>l\<in>set pre. \<not> str_in ''dev'' l)"
  { fix a assume "rstrip line = ''dev'' @ a"
    then have "extract_virtual_device_type fls filename =
       (case split (''dev'' @ a) of
          _ # dev_type # _ \<Rightarrow>
            (case list_index virtual_dev_type_list dev_type of
               None \<Rightarrow> Inl IllegalVirtualDevice
             | Some index \<Rightarrow> Inr (virtual_dev_type_list ! index))
        | _ \<Rightarrow> Inl VirtualDeviceNotFound)"
      using assms h first_dev_line[of pre line a post]
      by (simp add: extract_virtual_device_type_def) }
  note step = this
  { assume "rstrip line = ''dev tun''"
    then show "extract_virtual_device_type fls filename = Inr ''tun''"
      using step[of "'' tun''"] by (simp add: split_examples virtual_dev_type_list_def) }
  { assume "rstrip line = ''dev tap''"
    then show "extract_virtual_device_type fls filename = Inr ''tap''"
      using step[of "'' tap''"] by (simp add: split_examples virtual_dev_type_list_def) }
  { assume "rstrip line = ''dev tun0''"
    then show "extract_virtual_device_type fls filename = Inl IllegalVirtualDevice"
      using step[of "'' tun0''"] by (simp add: split_examples virtual_dev_type_list_def) }
  { assume "rstrip line = ''dev ppp0''"
    then show "extract_virtual_device_type fls filename = Inl IllegalVirtualDevice"
      using step[of "'' ppp0''"] by (simp add: split_examples virtual_dev_type_list_def) }
qed

theorem extract_virtual_device_type_cases_witness:
  "extract_virtual_device_type (one_file ''a.ovpn'' (profile_text ''dev tun'')) ''a.ovpn''
     = Inr ''tun''
   \<and> extract_virtual_device_type (one_file ''a.ovpn'' (profile_text ''dev ppp0'')) ''a.ovpn''
     = Inl IllegalVirtualDevice
   \<and> extract_virtual_device_type (one_file ''a.ovpn'' (profile_text ''remote x'')) ''a.ovpn''
     = Inl VirtualDeviceNotFound"
proof (intro conjI)
  have f: "\<And>t. one_file ''a.ovpn'' t ''a.ovpn'' = Some t" by (simp add: one_file_def)
  have pre: "\<forall>l\<in>set [''client'' @ [LF]]. \<not> str_in ''dev'' l" by (simp add: str_defs)
  show "extract_virtual_device_type (one_file ''a.ovpn'' (profile_text ''dev tun'')) ''a.ovpn''
          = Inr ''tun''"
    using extract_virtual_device_type_cases[of "one_file ''a.ovpn'' (profile_text ''dev tun'')"
        "''a.ovpn''" "profile_text ''dev tun''" "[''client'' @ [LF]]" "''dev tun'' @ [LF]"
        "[''proto udp'' @ [LF]]"] pre f
    by (simp add: readlines_profile_text str_defs)
  show "extract_virtual_device_type (one_file ''a.ovpn'' (profile_text ''dev ppp0'')) ''a.ovpn''
          = Inl IllegalVirtualDevice"
    using extract_virtual_device_type_cases[of "one_file ''a.ovpn'' (profile_text ''dev ppp0'')"
        "''a.ovpn''" "profile_text ''dev ppp0''" "[''client'' @ [LF]]" "''dev ppp0'' @ [LF]"
        "[''proto udp'' @ [LF]]"] pre f
    by (simp add: readlines_profile_text str_defs)
  show "extract_virtual_device_type (one_file ''a.ovpn'' (profile_text ''remote x'')) ''a.ovpn''
          = Inl VirtualDeviceNotFound"
    using extract_virtual_device_type_cases[of "one_file ''a.ovpn'' (profile_text ''remote x'')"
        "''a.ovpn''" "profile_text ''remote x''"] f
    by (simp add: readlines_profile_text str_defs)
qed


section \<open>Properties of the selection\<close>


lemma choice_in: "choice d xs = Inr x \<Longrightarrow> x \<in> set xs"
  by (cases "xs = []") (auto simp: choice_def)

lemma choice_nonempty: "xs \<noteq> [] \<Longrightarrow> \<exists>x\<in>set xs. choice d xs = Inr x"
  by (simp add: choice_def)

lemma choice_singleton: "choice d [x] = Inr x"
  by (simp add: choice_def)

lemma choice_empty: "choice d [] = Inl IndexError"
  by (simp add: choice_def)

lemma sorted_take_drop:
  assumes "sorted (map f xs)" "a \<in> set (take n xs)" "b \<in> set (drop n xs)"
  shows "f a \<le> f b"
proof -
  have "sorted (map f (take n xs) @ map f (drop n xs))"
    using assms(1) by (simp flip: map_append)
  then show ?thesis using assms(2,3) by (auto simp: sorted_append)
qed

lemma hd_sort_key_min:
  assumes "xs \<noteq> []"
  shows "hd (sort_key f xs) \<in> set xs \<and> (\<forall>t\<in>set xs. f (hd (sort_key f xs)) \<le> f t)"
proof -
  define zs where "zs = sort_key f xs"
  have st: "set zs = set xs" and so: "sorted (map f zs)" by (simp_all add: zs_def)
  have "zs \<noteq> []" using assms st by auto
  then obtain y ys where ys: "zs = y # ys" by (cases zs) auto
  have "\<forall>t\<in>set zs. f y \<le> f t" using so unfolding ys by auto
  moreover have "y \<in> set zs" unfolding ys by simp
  moreover have "hd zs = y" by (simp add: ys)
  ultimately have "hd zs \<in> set zs \<and> (\<forall>t\<in>set zs. f (hd zs) \<le> f t)"
    by blast
  then have "hd zs \<in> set xs \<and> (\<forall>t\<in>set xs. f (hd zs) \<le> f t)"
    using st by auto
  then show ?thesis unfolding zs_def .
qed

lemma hd_sort_key_first:
  assumes "xs \<noteq> []"
  shows "hd (sort_key f xs) = hd (filter (\<lambda>t. \<forall>u\<in>set xs. f t \<le> f u) xs)"
proof -
  define ys where "ys = sort_key f xs"
  define k where "k = f (hd ys)"
  have m: "hd ys \<in> set xs" "\<forall>t\<in>set xs. k \<le> f t"
    using hd_sort_key_min[OF assms, of f] by (auto simp: ys_def k_def)
  have ne: "ys \<noteq> []" using assms unfolding ys_def by (metis length_0_conv length_sort)
  have "(\<forall>u\<in>set xs. f t \<le> f u) = (f t = k)" if "t \<in> set xs" for t
  proof
    assume "\<forall>u\<in>set xs. f t \<le> f u"
    then have "f t \<le> k" using m(1) by (simp add: k_def)
    moreover have "k \<le> f t" using m(2) that by simp
    ultimately show "f t = k" by simp
  next
    assume "f t = k" then show "\<forall>u\<in>set xs. f t \<le> f u" using m(2) by simp
  qed
  then have "filter (\<lambda>t. \<forall>u\<in>set xs. f t \<le> f u) xs = filter (\<lambda>t. f t = k) xs"
    by (intro filter_cong) auto
  also have "\<dots> = filter (\<lambda>t. f t = k) ys" by (simp add: ys_def sort_key_stable)
  finally have "hd (filter (\<lambda>t. \<forall>u\<in>set xs. f t \<le> f u) xs) = hd (filter (\<lambda>t. f t = k) ys)"
    by simp
  also have "\<dots> = hd ys" using ne by (cases ys) (auto simp: k_def)
  finally show ?thesis by (simp add: ys_def)
qed

lemma fastest_choice_in_pool: "fastest_choice d pool = Inr s \<Longrightarrow> s \<in> set pool"
  by (auto simp: fastest_choice_def Let_def dest!: choice_in in_set_takeD split: if_splits)

lemma get_fastest_server_Inr:
  "get_fastest_server d pool = Inr n \<Longrightarrow> \<exists>s. fastest_choice d pool = Inr s \<and> Name s = n"
  by (cases "fastest_choice d pool") (auto simp: get_fastest_server_def)

text \<open>
  C6. A pool of at least 50 servers splits into four servers and the rest, no server of
  the four with a higher score than one of the rest, and the name returned is that of
  one of the four. For a pool of fewer than 50 servers that is not empty, the name
  returned is, for every draw, that of the first server of the pool with the least
  score.
\<close>

theorem get_fastest_server_top:
  "(50 \<le> length server_pool \<longrightarrow>
      (\<exists>best rest s. mset best + mset rest = mset server_pool \<and> length best = 4
          \<and> (\<forall>a\<in>set best. \<forall>b\<in>set rest. Score a \<le> Score b)
          \<and> s \<in> set best \<and> get_fastest_server draw server_pool = Inr (Name s)))
   \<and> (server_pool \<noteq> [] \<and> length server_pool < 50 \<longrightarrow>
      (\<exists>s\<in>set server_pool. (\<forall>t\<in>set server_pool. Score s \<le> Score t)
          \<and> s = hd (filter (\<lambda>t. \<forall>u\<in>set server_pool. Score t \<le> Score u) server_pool)
          \<and> (\<forall>d. get_fastest_server d server_pool = Inr (Name s))))"
proof (intro conjI impI)
  assume big: "50 \<le> length server_pool"
  define sorted_pool where "sorted_pool = sort_key Score server_pool"
  define best where "best = take 4 sorted_pool"
  define rest where "rest = drop 4 sorted_pool"
  have len: "length best = 4" using big by (simp add: best_def sorted_pool_def)
  then have ne: "best \<noteq> []" by auto
  have "mset best + mset rest = mset (take 4 sorted_pool @ drop 4 sorted_pool)"
    by (simp only: best_def rest_def mset_append)
  then have ms: "mset best + mset rest = mset server_pool"
    by (simp add: sorted_pool_def)
  have ord: "\<forall>a\<in>set best. \<forall>b\<in>set rest. Score a \<le> Score b"
    using sorted_take_drop[of Score sorted_pool _ 4]
    by (auto simp: best_def rest_def sorted_pool_def)
  obtain s where s: "s \<in> set best" "choice draw best = Inr s"
    using choice_nonempty[OF ne, of draw] by auto
  have "get_fastest_server draw server_pool = Inr (Name s)"
    using big s(2)
    by (simp add: get_fastest_server_def fastest_choice_def best_def sorted_pool_def)
  then show "\<exists>best rest s. mset best + mset rest = mset server_pool \<and> length best = 4
          \<and> (\<forall>a\<in>set best. \<forall>b\<in>set rest. Score a \<le> Score b)
          \<and> s \<in> set best \<and> get_fastest_server draw server_pool = Inr (Name s)"
    using ms len ord s(1) by blast
next
  assume small: "server_pool \<noteq> [] \<and> length server_pool < 50"
  define s where "s = hd (sort_key Score server_pool)"
  have ne: "sort_key Score server_pool \<noteq> []"
    using small by (metis length_0_conv length_sort)
  have t1: "take 1 (sort_key Score server_pool) = [s]"
    using ne by (cases "sort_key Score server_pool") (simp_all add: s_def)
  have m: "s \<in> set server_pool" "\<forall>t\<in>set server_pool. Score s \<le> Score t"
    using hd_sort_key_min[of server_pool Score] small by (auto simp: s_def)
  have f: "s = hd (filter (\<lambda>t. \<forall>u\<in>set server_pool. Score t \<le> Score u) server_pool)"
    using hd_sort_key_first[of server_pool Score] small by (simp add: s_def)
  have "\<forall>d. get_fastest_server d server_pool = Inr (Name s)"
    using small t1 by (simp add: get_fastest_server_def fastest_choice_def choice_singleton)
  then show "\<exists>s\<in>set server_pool. (\<forall>t\<in>set server_pool. Score s \<le> Score t)
          \<and> s = hd (filter (\<lambda>t. \<forall>u\<in>set server_pool. Score t \<le> Score u) server_pool)
          \<and> (\<forall>d. get_fastest_server d server_pool = Inr (Name s))"
    using m f by blast
qed

theorem get_fastest_server_top_witness:
  "(\<exists>best rest s. mset best + mset rest = mset pool_of_50 \<and> length best = 4
          \<and> (\<forall>a\<in>set best. \<forall>b\<in>set rest. Score a \<le> Score b)
          \<and> s \<in> set best \<and> get_fastest_server 7 pool_of_50 = Inr (Name s))
   \<and> (\<exists>s\<in>set [example_server ''CH#1'' 0 2, example_server ''CH#2'' 4 1].
          (\<forall>t\<in>set [example_server ''CH#1'' 0 2, example_server ''CH#2'' 4 1]. Score s \<le> Score t)
          \<and> (\<forall>d. get_fastest_server d [example_server ''CH#1'' 0 2, example_server ''CH#2'' 4 1] = Inr (Name s)))"
proof -
  have l: "50 \<le> length pool_of_50" by (simp add: pool_of_50_def)
  show ?thesis
    using get_fastest_server_top[of pool_of_50 7] get_fastest_server_top[of "[example_server ''CH#1'' 0 2, example_server ''CH#2'' 4 1]" 0] l
    by auto
qed


lemmas world_defs = example_world_def example_server_def cache_servers_def isdir_def isfile_def
  stat_def ensure_cache_home_def last_modified_def
  getmtime_def mkdir_def write_json_def read_json_def api_request_def filter_servers_def
  fetch_user_tier_def validate_session_protocol_def REFRESH_INTERVAL_def minutes_def

lemma filter_excluded_empty:
  "\<forall>s\<in>set servers. Features s = 1 \<or> Features s = 2 \<Longrightarrow>
   filter (\<lambda>server. Features server \<notin> set excluded_features) servers = []"
  by (induction servers) (auto simp: excluded_features_def)

lemma get_fastest_server_empty: "get_fastest_server draw [] = Inl IndexError"
  by (simp add: get_fastest_server_def fastest_choice_def choice_def)

text \<open>
  C10. The selector raises \<open>IndexError\<close> on the empty pool. So does \<open>fastest\<close> when
  the cache refresh and the tier filter succeed and every server left has the feature
  value 1 or 2, and so does \<open>random_c\<close> when the tier filter leaves no server: neither
  \<open>ServerListEmptyError\<close> nor \<open>IllegalServername\<close> is raised.
\<close>

theorem empty_pool_raises_IndexError:
  "get_fastest_server draw [] = Inl IndexError
   \<and> (protocol \<noteq> [] \<and> cache_servers w False (CACHED_SERVERLIST w) = (Inr (), w1)
        \<and> filter_servers w1 = (Inr servers, w2)
        \<and> (\<forall>s\<in>set servers. Features s = 1 \<or> Features s = 2)
      \<longrightarrow> fastest draw w protocol = (Inl IndexError, w2))
   \<and> (protocol \<noteq> [] \<and> filter_servers w = (Inr [], w1)
      \<longrightarrow> random_c draw w protocol = (Inl IndexError, w1))"
  by (simp add: get_fastest_server_empty fastest_def random_c_def
      validate_session_protocol_def filter_excluded_empty choice_empty)

lemma cache_fresh:
  "cache_servers (example_world 0 servers) False ''/cache/serverlist.json'' = (Inr (), example_world 0 servers)"
  by (simp add: world_defs)

lemma filter_example:
  "filter_servers (example_world 0 servers) =
     (Inr (filter (\<lambda>server. Tier server \<le> 2 \<and> Status server = 1) servers),
      (example_world 0 servers)\<lparr>requests := [''/vpn'']\<rparr>)"
  by (simp add: world_defs)

lemma cached_example: "CACHED_SERVERLIST (example_world t servers) = ''/cache/serverlist.json''"
  by (simp add: example_world_def)

theorem empty_pool_raises_IndexError_witness:
  "fastest 0 (example_world 0 [example_server ''CH-SE#1'' 1 1, example_server ''CH#2-TOR'' 2 2]) ''udp''
     = (Inl IndexError, (example_world 0 [example_server ''CH-SE#1'' 1 1, example_server ''CH#2-TOR'' 2 2])\<lparr>requests := [''/vpn'']\<rparr>)
   \<and> random_c 0 (example_world 0 []) ''udp'' = (Inl IndexError, (example_world 0 [])\<lparr>requests := [''/vpn'']\<rparr>)"
  using empty_pool_raises_IndexError[where draw = 0 and protocol = "''udp''"
      and w = "example_world 0 [example_server ''CH-SE#1'' 1 1, example_server ''CH#2-TOR'' 2 2]"
      and ?w1.0 = "example_world 0 [example_server ''CH-SE#1'' 1 1, example_server ''CH#2-TOR'' 2 2]"
      and servers = "[example_server ''CH-SE#1'' 1 1, example_server ''CH#2-TOR'' 2 2]"
      and ?w2.0 = "(example_world 0 [example_server ''CH-SE#1'' 1 1,
                      example_server ''CH#2-TOR'' 2 2])\<lparr>requests := [''/vpn'']\<rparr>"]
    empty_pool_raises_IndexError[where draw = 0 and protocol = "''udp''" and w = "example_world 0 []"
      and ?w1.0 = "(example_world 0 [])\<lparr>requests := [''/vpn'']\<rparr>"]
  by (simp add: cache_fresh filter_example cached_example) (simp add: example_server_def)

text \<open>
  C1 (amended). The claim: \<open>fastest\<close> never returns a server whose feature value has
  the bit of SecureCore or of Tor. The code compares the whole value with 1 and 2: a
  server with the value 3, both bits set, is returned.
\<close>

theorem fastest_keeps_combined_features:
  "fst (fastest 0 (example_world 0 [example_server ''CH#1'' 3 1]) ''udp'') = Inr (''CH#1'', [''10.0.0.1''])
   \<and> bit (Features (example_server ''CH#1'' 3 1)) 0
   \<and> bit (Features (example_server ''CH#1'' 3 1)) 1"
  by (simp add: fastest_def validate_session_protocol_def cache_fresh filter_example cached_example
       get_fastest_server_def fastest_choice_def choice_def finish_selection_def generate_ip_list_def
       extract_server_value_def excluded_features_def)
     (simp add: example_server_def bit_iff_odd)

text \<open>
  C1, as amended. When \<open>fastest\<close> returns a name, it is the name of a server of the
  tier-filtered catalog, chosen from the pool, whose feature value is neither 1 nor 2.
\<close>

theorem fastest_excludes_exact_features:
  assumes "fastest draw w protocol = (Inr (servername, ip_list), w')"
  shows "\<exists>w1 servers s. cache_servers w False (CACHED_SERVERLIST w) = (Inr (), w1)
            \<and> filter_servers w1 = (Inr servers, w')
            \<and> fastest_choice draw (filter (\<lambda>server. Features server \<notin> set excluded_features) servers) = Inr s
            \<and> s \<in> set servers \<and> Name s = servername
            \<and> Features s \<noteq> 1 \<and> Features s \<noteq> 2"
proof -
  from assms obtain w1 where c: "cache_servers w False (CACHED_SERVERLIST w) = (Inr (), w1)"
    by (auto simp: fastest_def split: sum.splits prod.splits unit.splits)
  from assms c obtain servers w2 where f: "filter_servers w1 = (Inr servers, w2)"
    by (auto simp: fastest_def split: sum.splits prod.splits)
  let ?pool = "filter (\<lambda>server. Features server \<notin> set excluded_features) servers"
  from assms c f obtain n where g: "get_fastest_server draw ?pool = Inr n"
    and r: "(finish_selection n servers, w2) = (Inr (servername, ip_list), w')"
    by (auto simp: fastest_def Let_def split: sum.splits prod.splits)
  from r have w: "w2 = w'" and n: "n = servername"
    by (auto simp: finish_selection_def split: sum.splits)
  from g obtain s where s: "fastest_choice draw ?pool = Inr s" "Name s = n"
    using get_fastest_server_Inr by blast
  then have "s \<in> set ?pool" using fastest_choice_in_pool by blast
  then have "s \<in> set servers" "Features s \<noteq> 1" "Features s \<noteq> 2"
    by (auto simp: excluded_features_def)
  then show ?thesis using c f s w n by blast
qed


lemma fastest_example:
  "fastest 0 (example_world 0 [example_server ''CH-SE#1'' 1 1, example_server ''CH#7'' 4 3]) ''udp''
     = (Inr (''CH#7'', [''10.0.0.1'']),
        (example_world 0 [example_server ''CH-SE#1'' 1 1, example_server ''CH#7'' 4 3])
          \<lparr>requests := [''/vpn'']\<rparr>)"
  by (simp add: fastest_def validate_session_protocol_def cache_fresh filter_example cached_example
       get_fastest_server_def fastest_choice_def choice_def finish_selection_def generate_ip_list_def
       extract_server_value_def excluded_features_def)
     (simp add: example_server_def)

theorem fastest_excludes_exact_features_witness:
  "\<exists>w1 servers s.
      cache_servers (example_world 0 [example_server ''CH-SE#1'' 1 1, example_server ''CH#7'' 4 3])
        False (CACHED_SERVERLIST (example_world 0 [example_server ''CH-SE#1'' 1 1, example_server ''CH#7'' 4 3]))
        = (Inr (), w1)
      \<and> filter_servers w1 = (Inr servers,
           (example_world 0 [example_server ''CH-SE#1'' 1 1, example_server ''CH#7'' 4 3])
             \<lparr>requests := [''/vpn'']\<rparr>)
      \<and> fastest_choice 0 (filter (\<lambda>server. Features server \<notin> set excluded_features) servers) = Inr s
      \<and> s \<in> set servers \<and> Name s = ''CH#7''
      \<and> Features s \<noteq> 1 \<and> Features s \<noteq> 2"
  using fastest_excludes_exact_features[OF fastest_example] .




lemma feature_f_unknown:
  assumes "lower (strip literal) \<notin> {''sc'', ''tor'', ''p2p'', ''stream'', ''ipv6''}"
  shows "feature_f draw w protocol (ListObj (Str literal # others) # args) = (Inl ValueError, w)"
proof -
  have "map_of allowed_features (lower (strip literal)) = None"
    using assms by (simp add: allowed_features_def)
  then show ?thesis by (simp add: feature_f_def validate_session_protocol_def)
qed

lemma fastest_choice_nonempty:
  assumes "pool \<noteq> []"
  shows "\<exists>s\<in>set pool. fastest_choice draw pool = Inr s"
proof -
  have "sort_key Score pool \<noteq> []" using assms by (metis length_0_conv length_sort)
  then have "take (if 50 \<le> length (sort_key Score pool) then 4 else 1) (sort_key Score pool) \<noteq> []"
    by (cases "sort_key Score pool") simp_all
  then obtain s where "fastest_choice draw pool = Inr s"
    using choice_nonempty[of _ draw] unfolding fastest_choice_def Let_def by blast
  then show ?thesis using fastest_choice_in_pool by blast
qed

lemma feature_f_known:
  assumes "protocol \<noteq> []" "map_of allowed_features (lower (strip literal)) = Some f"
        "cache_servers w False (CACHED_SERVERLIST w) = (Inr (), w1)"
        "filter_servers w1 = (Inr servers, w2)"
  shows "(filter (\<lambda>s. Features s = f) servers = [] \<longrightarrow>
             feature_f draw w protocol (ListObj (Str literal # others) # args)
               = (Inl ServerListEmptyError, w2))
        \<and> (filter (\<lambda>s. Features s = f) servers \<noteq> [] \<longrightarrow>
             (\<exists>s\<in>set servers. Features s = f
                \<and> fastest_choice draw (filter (\<lambda>s. Features s = f) servers) = Inr s
                \<and> feature_f draw w protocol (ListObj (Str literal # others) # args)
                    = (finish_selection (Name s) servers, w2)))"
proof (intro conjI impI)
  assume "filter (\<lambda>s. Features s = f) servers = []"
  then show "feature_f draw w protocol (ListObj (Str literal # others) # args)
               = (Inl ServerListEmptyError, w2)"
    using assms by (simp add: feature_f_def validate_session_protocol_def)
next
  let ?pool = "filter (\<lambda>s. Features s = f) servers"
  assume ne: "?pool \<noteq> []"
  obtain s where s: "s \<in> set ?pool" "fastest_choice draw ?pool = Inr s"
    using fastest_choice_nonempty[OF ne] by blast
  then have m: "s \<in> set servers" "Features s = f" by auto
  have "feature_f draw w protocol (ListObj (Str literal # others) # args)
                    = (finish_selection (Name s) servers, w2)"
    using assms ne s(2) by (simp add: feature_f_def validate_session_protocol_def get_fastest_server_def)
  then show "\<exists>s\<in>set servers. Features s = f
                \<and> fastest_choice draw ?pool = Inr s
                \<and> feature_f draw w protocol (ListObj (Str literal # others) # args)
                    = (finish_selection (Name s) servers, w2)"
    using m s(2) by blast
qed

text \<open>
  C7. The literal is the first element of the list given, stripped and in lower case.
  A literal outside \<open>sc\<close>, \<open>tor\<close>, \<open>p2p\<close>, \<open>stream\<close>, \<open>ipv6\<close> raises \<open>ValueError\<close>
  and leaves the world as it was: no request, no file read or written. For a known
  literal, after the cache refresh and the tier filter, the pool is the servers whose
  feature value equals that of the literal: \<open>ServerListEmptyError\<close> when it is empty
  (for \<open>p2p\<close>, no server with the value 4), else the end of the selection for a server
  of the pool.
\<close>

theorem feature_f_errors:
  "(lower (strip literal) \<notin> {''sc'', ''tor'', ''p2p'', ''stream'', ''ipv6''} \<longrightarrow>
      feature_f draw w protocol (ListObj (Str literal # others) # args) = (Inl ValueError, w))
   \<and> (protocol \<noteq> [] \<and> lower (strip literal) = ''p2p''
        \<and> cache_servers w False (CACHED_SERVERLIST w) = (Inr (), w1)
        \<and> filter_servers w1 = (Inr servers, w2)
        \<and> filter (\<lambda>s. Features s = 4) servers = []
      \<longrightarrow> feature_f draw w protocol (ListObj (Str literal # others) # args)
               = (Inl ServerListEmptyError, w2))
   \<and> (protocol \<noteq> [] \<and> map_of allowed_features (lower (strip literal)) = Some feature
        \<and> cache_servers w False (CACHED_SERVERLIST w) = (Inr (), w1)
        \<and> filter_servers w1 = (Inr servers, w2)
      \<longrightarrow> (filter (\<lambda>s. Features s = feature) servers = [] \<longrightarrow>
             feature_f draw w protocol (ListObj (Str literal # others) # args)
               = (Inl ServerListEmptyError, w2))
        \<and> (filter (\<lambda>s. Features s = feature) servers \<noteq> [] \<longrightarrow>
             (\<exists>s\<in>set servers. Features s = feature
                \<and> fastest_choice draw (filter (\<lambda>s. Features s = feature) servers) = Inr s
                \<and> feature_f draw w protocol (ListObj (Str literal # others) # args)
                    = (finish_selection (Name s) servers, w2))))"
proof (intro conjI)
  show "lower (strip literal) \<notin> {''sc'', ''tor'', ''p2p'', ''stream'', ''ipv6''} \<longrightarrow>
      feature_f draw w protocol (ListObj (Str literal # others) # args) = (Inl ValueError, w)"
    using feature_f_unknown by blast
next
  show "protocol \<noteq> [] \<and> lower (strip literal) = ''p2p''
        \<and> cache_servers w False (CACHED_SERVERLIST w) = (Inr (), w1)
        \<and> filter_servers w1 = (Inr servers, w2)
        \<and> filter (\<lambda>s. Features s = 4) servers = []
      \<longrightarrow> feature_f draw w protocol (ListObj (Str literal # others) # args)
               = (Inl ServerListEmptyError, w2)"
  proof
    assume h: "protocol \<noteq> [] \<and> lower (strip literal) = ''p2p''
        \<and> cache_servers w False (CACHED_SERVERLIST w) = (Inr (), w1)
        \<and> filter_servers w1 = (Inr servers, w2)
        \<and> filter (\<lambda>s. Features s = 4) servers = []"
    then have "map_of allowed_features (lower (strip literal)) = Some 4"
      by (simp add: allowed_features_def)
    then show "feature_f draw w protocol (ListObj (Str literal # others) # args)
               = (Inl ServerListEmptyError, w2)"
      using h feature_f_known[of protocol literal 4 w w1 servers w2 draw others args] by blast
  qed
next
  show "protocol \<noteq> [] \<and> map_of allowed_features (lower (strip literal)) = Some feature
        \<and> cache_servers w False (CACHED_SERVERLIST w) = (Inr (), w1)
        \<and> filter_servers w1 = (Inr servers, w2)
      \<longrightarrow> (filter (\<lambda>s. Features s = feature) servers = [] \<longrightarrow>
             feature_f draw w protocol (ListObj (Str literal # others) # args)
               = (Inl ServerListEmptyError, w2))
        \<and> (filter (\<lambda>s. Features s = feature) servers \<noteq> [] \<longrightarrow>
             (\<exists>s\<in>set servers. Features s = feature
                \<and> fastest_choice draw (filter (\<lambda>s. Features s = feature) servers) = Inr s
                \<and> feature_f draw w protocol (ListObj (Str literal # others) # args)
                    = (finish_selection (Name s) servers, w2)))"
    using feature_f_known[of protocol literal feature w w1 servers w2 draw others args] by blast
qed

lemma strip_lower_examples:
  "lower (strip ''bogus'') = ''bogus''" "lower (strip '' P2P '') = ''p2p''"
  by code_simp+

theorem feature_f_errors_witness:
  "feature_f 0 (example_world 0 [example_server ''CH#7'' 0 3]) ''udp'' [ListObj [Str ''bogus'']]
     = (Inl ValueError, example_world 0 [example_server ''CH#7'' 0 3])
   \<and> feature_f 0 (example_world 0 [example_server ''CH#7'' 0 3]) ''udp'' [ListObj [Str '' P2P '']]
     = (Inl ServerListEmptyError,
        (example_world 0 [example_server ''CH#7'' 0 3])\<lparr>requests := [''/vpn'']\<rparr>)"
proof
  show "feature_f 0 (example_world 0 [example_server ''CH#7'' 0 3]) ''udp''
          [ListObj [Str ''bogus'']]
        = (Inl ValueError, example_world 0 [example_server ''CH#7'' 0 3])"
    using feature_f_errors[where literal = "''bogus''" and draw = 0
        and w = "example_world 0 [example_server ''CH#7'' 0 3]" and protocol = "''udp''"
        and others = "[]" and args = "[]", THEN conjunct1]
    by (simp add: strip_lower_examples)
  show "feature_f 0 (example_world 0 [example_server ''CH#7'' 0 3]) ''udp''
          [ListObj [Str '' P2P '']]
        = (Inl ServerListEmptyError,
           (example_world 0 [example_server ''CH#7'' 0 3])\<lparr>requests := [''/vpn'']\<rparr>)"
    using feature_f_errors[where literal = "'' P2P ''" and draw = 0
        and w = "example_world 0 [example_server ''CH#7'' 0 3]" and protocol = "''udp''"
        and others = "[]" and args = "[]"
        and ?w1.0 = "example_world 0 [example_server ''CH#7'' 0 3]"
        and servers = "filter (\<lambda>server. Tier server \<le> 2 \<and> Status server = 1)
                         [example_server ''CH#7'' 0 3]"
        and ?w2.0 = "(example_world 0 [example_server ''CH#7'' 0 3])\<lparr>requests := [''/vpn'']\<rparr>",
        THEN conjunct2, THEN conjunct1]
    by (simp add: strip_lower_examples cache_fresh filter_example cached_example)
       (simp add: example_server_def)
qed


section \<open>Properties of the cache refresh\<close>


lemma ensure_cache_home_frame:
  assumes "ensure_cache_home w = (r, w1)"
  shows "now w1 = now w \<and> api w1 = api w \<and> requests w1 = requests w
       \<and> os_refuses w1 = os_refuses w"
  using assms
  by (auto simp: ensure_cache_home_def mkdir_def split: if_splits option.splits)

lemma write_json_requests: "requests (snd (write_json w path document)) = requests w"
  by (simp add: write_json_def split: option.splits node.splits)

lemma stale_iff_time_ago:
  assumes "isfile w path"
  shows "\<exists>t. last_modified w path = Inr t
           \<and> (now w - minutes REFRESH_INTERVAL > t) = cache_stale w path"
  using assms
  by (auto simp: isfile_def last_modified_def getmtime_def cache_stale_def
      split: sum.splits node.splits)

text \<open>What \<open>cache_servers\<close> does once its tests of the paths have passed.\<close>

lemma cache_servers_decided:
  assumes "cached_serverlist \<noteq> []" "\<not> isdir w cached_serverlist"
      and "ensure_cache_home w = (Inr (), w1)"
      and "\<forall>e. getmtime w1 cached_serverlist = Inl e \<longrightarrow> e = FileNotFoundError"
  shows "cache_servers w force cached_serverlist =
           (if refresh_due w1 force cached_serverlist
            then (case api w ''/vpn/logicals'' of
                    Inl e \<Rightarrow> (Inl e, w1\<lparr>requests := requests w @ [''/vpn/logicals'']\<rparr>)
                  | Inr document \<Rightarrow>
                      write_json (w1\<lparr>requests := requests w @ [''/vpn/logicals'']\<rparr>)
                        cached_serverlist document)
            else (Inr (), w1))"
proof -
  note fr = ensure_cache_home_frame[OF assms(3)]
  obtain t where t: "last_modified w1 cached_serverlist = Inr t"
    using assms(4) by (cases "getmtime w1 cached_serverlist") (auto simp: last_modified_def)
  have due: "(\<not> isfile w1 cached_serverlist \<or> (now w1 - minutes REFRESH_INTERVAL > t \<or> force))
      = refresh_due w1 force cached_serverlist"
    using stale_iff_time_ago[of w1 cached_serverlist] t by (auto simp: refresh_due_def)
  have "cache_servers w force cached_serverlist =
      (if \<not> isfile w1 cached_serverlist \<or> (now w1 - minutes REFRESH_INTERVAL > t \<or> force)
       then (case api_request w1 ''/vpn/logicals'' of
               (Inl e, w2) \<Rightarrow> (Inl e, w2)
             | (Inr document, w2) \<Rightarrow> write_json w2 cached_serverlist document)
       else (Inr (), w1))"
    using assms(1-3) t by (simp add: cache_servers_def Let_def)
  also have "\<dots> = (if refresh_due w1 force cached_serverlist
            then (case api w ''/vpn/logicals'' of
                    Inl e \<Rightarrow> (Inl e, w1\<lparr>requests := requests w @ [''/vpn/logicals'']\<rparr>)
                  | Inr document \<Rightarrow>
                      write_json (w1\<lparr>requests := requests w @ [''/vpn/logicals'']\<rparr>)
                        cached_serverlist document)
            else (Inr (), w1))"
    unfolding due using fr by (simp add: api_request_def split: sum.splits)
  finally show ?thesis .
qed

text \<open>The paths on which \<open>cache_servers\<close> raises before it decides.\<close>

lemma cache_servers_raises:
  "cache_servers w force [] = (Inl FileNotFoundError, w)"
  "cached_serverlist \<noteq> [] \<Longrightarrow> isdir w cached_serverlist \<Longrightarrow>
     cache_servers w force cached_serverlist = (Inl IsADirectoryError, w)"
  "cached_serverlist \<noteq> [] \<Longrightarrow> \<not> isdir w cached_serverlist \<Longrightarrow>
     ensure_cache_home w = (Inl e, w1) \<Longrightarrow>
     cache_servers w force cached_serverlist = (Inl e, w1)"
  "cached_serverlist \<noteq> [] \<Longrightarrow> \<not> isdir w cached_serverlist \<Longrightarrow>
     ensure_cache_home w = (Inr (), w1) \<Longrightarrow>
     getmtime w1 cached_serverlist = Inl e \<Longrightarrow> e \<noteq> FileNotFoundError \<Longrightarrow>
     cache_servers w force cached_serverlist = (Inl e, w1)"
  by (simp_all add: cache_servers_def last_modified_def)

lemma mkdir_refused:
  "\<not> isdir w (PROTON_XDG_CACHE_HOME w) \<Longrightarrow>
   os_refuses w Mkdir (fs w) (PROTON_XDG_CACHE_HOME w) = Some e \<Longrightarrow>
   ensure_cache_home w = (Inl e, w)"
  by (simp add: ensure_cache_home_def mkdir_def)

lemma write_json_refused:
  "os_refuses w OpenWrite (fs w) path = Some e \<Longrightarrow> write_json w path document = (Inl e, w)"
  by (simp add: write_json_def)


text \<open>
  Two runs that raise: the cache directory is absent and cannot be made, its parent
  missing, so nothing is requested; the cache path cannot be opened for writing, its
  parent missing, so the forced request is made and the writing raises.
\<close>

lemma cache_servers_refused_examples:
  "cache_servers
     ((example_world 0 [])\<lparr>fs := Map.empty,
        os_refuses := (\<lambda>call files path.
          if call = Mkdir then Some FileNotFoundError else None)\<rparr>)
     False ''/cache/serverlist.json''
   = (Inl FileNotFoundError,
      (example_world 0 [])\<lparr>fs := Map.empty,
        os_refuses := (\<lambda>call files path.
          if call = Mkdir then Some FileNotFoundError else None)\<rparr>)"
  "cache_servers
     ((example_world 0 [])\<lparr>os_refuses := (\<lambda>call files path.
          if call = OpenWrite then Some FileNotFoundError else None)\<rparr>)
     True ''/cache/serverlist.json''
   = (Inl FileNotFoundError,
      (example_world 0 [])\<lparr>os_refuses := (\<lambda>call files path.
          if call = OpenWrite then Some FileNotFoundError else None),
        requests := [''/vpn/logicals'']\<rparr>)"
  by (simp_all add: world_defs)

text \<open>
  C5. Let the cache path be not empty and no directory, let the cache directory exist
  or be made, and let \<open>os.stat\<close> of the cache path raise nothing but
  \<open>FileNotFoundError\<close>; \<open>w1\<close> is the world after the statement for the cache
  directory. Then the request for \<open>/vpn/logicals\<close> is made exactly when the refresh is
  forced, or the cache file is absent, or it was modified more than 15 minutes before
  now. A file modified 20 minutes ago is refreshed; one modified 5 minutes ago is not,
  unless forced, and nothing more happens. When the refresh is due and the request is
  answered, what follows is the writing of the answer to the cache path; when the
  operating system does not refuse that, the answer is the new content of the cache
  file, whatever it held.
\<close>

theorem cache_servers_refresh_policy:
  assumes "cached_serverlist \<noteq> []" "\<not> isdir w cached_serverlist"
      and "ensure_cache_home w = (Inr (), w1)"
      and "\<forall>e. getmtime w1 cached_serverlist = Inl e \<longrightarrow> e = FileNotFoundError"
  shows "requests (snd (cache_servers w force cached_serverlist)) =
           (if force \<or> \<not> isfile w1 cached_serverlist \<or> cache_stale w1 cached_serverlist
            then requests w @ [''/vpn/logicals''] else requests w)
       \<and> (stat w1 cached_serverlist = Inr (RegularFile (now w - minutes 20) old) \<longrightarrow>
            requests (snd (cache_servers w force cached_serverlist))
              = requests w @ [''/vpn/logicals''])
       \<and> (stat w1 cached_serverlist = Inr (RegularFile (now w - minutes 5) old) \<and> \<not> force \<longrightarrow>
            cache_servers w force cached_serverlist = (Inr (), w1)
            \<and> requests w1 = requests w)
       \<and> (refresh_due w1 force cached_serverlist \<and> api w ''/vpn/logicals'' = Inr document \<longrightarrow>
            cache_servers w force cached_serverlist
              = write_json (w1\<lparr>requests := requests w @ [''/vpn/logicals'']\<rparr>)
                  cached_serverlist document)
       \<and> (refresh_due w1 force cached_serverlist \<and> api w ''/vpn/logicals'' = Inr document
            \<and> os_refuses w OpenWrite (fs w1) cached_serverlist = None
            \<and> (\<forall>t. fs w1 cached_serverlist \<noteq> Some (Directory t)) \<longrightarrow>
            fst (cache_servers w force cached_serverlist) = Inr ()
            \<and> fs (snd (cache_servers w force cached_serverlist)) cached_serverlist
                = Some (RegularFile (now w) document))"
proof -
  note dec = cache_servers_decided[OF assms, of force]
  note fr = ensure_cache_home_frame[OF assms(3)]
  have req: "requests (snd (cache_servers w force cached_serverlist)) =
           (if refresh_due w1 force cached_serverlist
            then requests w @ [''/vpn/logicals''] else requests w)"
    unfolding dec using fr by (simp add: write_json_requests split: sum.splits)
  have c1: "requests (snd (cache_servers w force cached_serverlist)) =
           (if force \<or> \<not> isfile w1 cached_serverlist \<or> cache_stale w1 cached_serverlist
            then requests w @ [''/vpn/logicals''] else requests w)"
    using req by (simp add: refresh_due_def)
  have c2: "requests (snd (cache_servers w force cached_serverlist))
              = requests w @ [''/vpn/logicals'']"
    if "stat w1 cached_serverlist = Inr (RegularFile (now w - minutes 20) old)"
  proof -
    have "cache_stale w1 cached_serverlist"
      using that fr by (simp add: cache_stale_def minutes_def REFRESH_INTERVAL_def)
    then show ?thesis using req by (simp add: refresh_due_def)
  qed
  have c3: "cache_servers w force cached_serverlist = (Inr (), w1) \<and> requests w1 = requests w"
    if "stat w1 cached_serverlist = Inr (RegularFile (now w - minutes 5) old) \<and> \<not> force"
  proof -
    have "\<not> refresh_due w1 force cached_serverlist"
      using that fr
      by (simp add: refresh_due_def cache_stale_def isfile_def minutes_def REFRESH_INTERVAL_def)
    then show ?thesis using dec fr by simp
  qed
  have c4: "cache_servers w force cached_serverlist
              = write_json (w1\<lparr>requests := requests w @ [''/vpn/logicals'']\<rparr>)
                  cached_serverlist document"
    if "refresh_due w1 force cached_serverlist \<and> api w ''/vpn/logicals'' = Inr document"
    using that dec by simp
  have c5: "fst (cache_servers w force cached_serverlist) = Inr ()
            \<and> fs (snd (cache_servers w force cached_serverlist)) cached_serverlist
                = Some (RegularFile (now w) document)"
    if "refresh_due w1 force cached_serverlist \<and> api w ''/vpn/logicals'' = Inr document
            \<and> os_refuses w OpenWrite (fs w1) cached_serverlist = None
            \<and> (\<forall>t. fs w1 cached_serverlist \<noteq> Some (Directory t))"
  proof -
    have "cache_servers w force cached_serverlist
              = write_json (w1\<lparr>requests := requests w @ [''/vpn/logicals'']\<rparr>)
                  cached_serverlist document"
      using that c4 by simp
    then show ?thesis using that fr
      by (auto simp: write_json_def split: option.splits node.splits)
  qed
  show ?thesis using c1 c2 c3 c4 c5 by blast
qed

theorem cache_servers_refresh_policy_witness:
  "requests (snd (cache_servers (example_world (- minutes 20) []) False ''/cache/serverlist.json''))
     = [''/vpn/logicals'']
   \<and> requests (snd (cache_servers (example_world (- minutes 5) []) False ''/cache/serverlist.json''))
     = []
   \<and> requests (snd (cache_servers (example_world (- minutes 5) []) True ''/cache/serverlist.json''))
     = [''/vpn/logicals'']
   \<and> fs (snd (cache_servers (example_world (- minutes 20) []) False ''/cache/serverlist.json''))
        ''/cache/serverlist.json''
     = Some (RegularFile 0 (LogicalServers_doc []))"
proof -
  let ?path = "''/cache/serverlist.json''"
  let ?doc = "LogicalServers_doc []"
  have h1: "?path \<noteq> []" by simp
  have h2: "\<not> isdir (example_world t []) ?path" for t
    by (simp add: example_world_def isdir_def stat_def)
  have h3: "ensure_cache_home (example_world t []) = (Inr (), example_world t [])" for t
    by (simp add: example_world_def isdir_def stat_def ensure_cache_home_def)
  have st: "stat (example_world t []) ?path = Inr (RegularFile t ?doc)" for t
    by (simp add: example_world_def stat_def)
  have h4: "\<forall>e. getmtime (example_world t []) ?path = Inl e \<longrightarrow> e = FileNotFoundError" for t
    by (simp add: getmtime_def st)
  have nw: "now (example_world t []) = 0" and rq: "requests (example_world t []) = []"
    and ap: "api (example_world t []) ''/vpn/logicals'' = Inr ?doc"
    and ow: "os_refuses (example_world t []) OpenWrite (fs (example_world t [])) ?path = None"
    and nd: "\<forall>t'. fs (example_world t []) ?path \<noteq> Some (Directory t')" for t
    by (simp_all add: example_world_def)
  have due: "refresh_due (example_world (- minutes 20) []) False ?path"
    by (simp add: refresh_due_def cache_stale_def st nw minutes_def REFRESH_INTERVAL_def)
  note t20 = cache_servers_refresh_policy[OF h1 h2[of "- minutes 20"] h3[of "- minutes 20"] h4[of "- minutes 20"],
      where force = False and old = ?doc and document = ?doc]
  note t5 = cache_servers_refresh_policy[OF h1 h2[of "- minutes 5"] h3[of "- minutes 5"] h4[of "- minutes 5"],
      where force = False and old = ?doc and document = ?doc]
  note t5f = cache_servers_refresh_policy[OF h1 h2[of "- minutes 5"] h3[of "- minutes 5"] h4[of "- minutes 5"],
      where force = True and old = ?doc and document = ?doc]
  have a: "requests (snd (cache_servers (example_world (- minutes 20) []) False ?path))
             = [''/vpn/logicals'']"
    using t20[THEN conjunct2, THEN conjunct1] st[of "- minutes 20"] by (simp add: nw rq)
  have "cache_servers (example_world (- minutes 5) []) False ?path
          = (Inr (), example_world (- minutes 5) [])"
    using t5[THEN conjunct2, THEN conjunct2, THEN conjunct1] st[of "- minutes 5"]
    by (simp add: nw)
  then have b: "requests (snd (cache_servers (example_world (- minutes 5) []) False ?path)) = []"
    by (simp add: rq)
  have c: "requests (snd (cache_servers (example_world (- minutes 5) []) True ?path))
             = [''/vpn/logicals'']"
    using t5f[THEN conjunct1] by (simp add: rq)
  have d: "fs (snd (cache_servers (example_world (- minutes 20) []) False ?path)) ?path
             = Some (RegularFile 0 ?doc)"
    using t20[THEN conjunct2, THEN conjunct2, THEN conjunct2, THEN conjunct2] due ap ow nd
    by (simp add: nw)
  show ?thesis using a b c d by blast
qed


section \<open>Properties of the connection lifecycle\<close>


lemma proton_position_None:
  "proton_position (virtual_device_name k) xs = Inr None \<Longrightarrow> filter (managed k) xs = []"
proof (induction xs)
  case Nil
  then show ?case by simp
next
  case (Cons c cs)
  have nm: "\<not> managed k c"
    using Cons.prems by (auto simp: managed_def split: option.splits if_splits)
  then have "proton_position (virtual_device_name k) (c # cs)
        = map_sum id (map_option Suc) (proton_position (virtual_device_name k) cs)"
    using Cons.prems by (auto simp: managed_def split: option.splits if_splits)
  then have "proton_position (virtual_device_name k) cs = Inr None"
    using Cons.prems
    by (cases "proton_position (virtual_device_name k) cs") (auto split: option.splits)
  then show ?case using Cons.IH nm by simp
qed

lemma proton_position_Some:
  "proton_position (virtual_device_name k) xs = Inr (Some i) \<Longrightarrow>
   i < length xs \<and> managed k (xs ! i)"
proof (induction xs arbitrary: i)
  case Nil
  then show ?case by simp
next
  case (Cons c cs)
  show ?case
  proof (cases "managed k c")
    case True
    then have "proton_position (virtual_device_name k) (c # cs) = Inr (Some 0)"
      by (auto simp: managed_def split: option.splits)
    then show ?thesis using Cons.prems True by simp
  next
    case False
    then have "proton_position (virtual_device_name k) (c # cs) = Inl AttributeError \<or>
      proton_position (virtual_device_name k) (c # cs)
        = map_sum id (map_option Suc) (proton_position (virtual_device_name k) cs)"
      by (auto simp: managed_def split: option.splits)
    then obtain j where "proton_position (virtual_device_name k) cs = Inr (Some j)" "i = Suc j"
      using Cons.prems
      by (cases "proton_position (virtual_device_name k) cs") (auto simp: map_option_case split: option.splits)
    then show ?thesis using Cons.IH[of j] by simp
  qed
qed

lemma filter_delete_at:
  "i < length xs \<Longrightarrow> P (xs ! i) \<Longrightarrow>
   Suc (length (filter P (delete_at i xs))) = length (filter P xs)"
proof (induction xs arbitrary: i)
  case Nil
  then show ?case by simp
next
  case (Cons x xs)
  show ?case
  proof (cases i)
    case 0
    then show ?thesis using Cons.prems by (simp add: delete_at_def)
  next
    case (Suc j)
    then have "Suc (length (filter P (delete_at j xs))) = length (filter P xs)"
      using Cons by simp
    then show ?thesis using Suc by (simp add: delete_at_def)
  qed
qed

lemma filter_delete_at_le:
  "length (filter P (delete_at i xs)) \<le> length (filter P xs)"
proof -
  have "filter P (delete_at i xs) = filter P (take i xs) @ filter P (drop (Suc i) xs)"
    by (simp add: delete_at_def)
  moreover have "filter P xs = filter P (take i xs) @ filter P (drop i xs)"
    by (metis append_take_drop_id filter_append)
  moreover have "length (filter P (drop (Suc i) xs)) \<le> length (filter P (drop i xs))"
    by (cases "i < length xs") (simp_all add: Cons_nth_drop_Suc[symmetric])
  ultimately show ?thesis by simp
qed

lemma stop_connection_connections:
  "connections (snd (stop_connection k s)) = connections s"
  by (simp add: stop_connection_def split: sum.splits option.splits)

lemma run_delete_connections:
  "connections (snd (run_delete_cached_cert d p s)) = connections s"
  by (simp add: run_delete_cached_cert_def split: prod.splits)


lemma proton_position_Inl:
  "proton_position name xs = Inl e \<Longrightarrow> e = AttributeError"
proof (induction xs)
  case Nil
  then show ?case by simp
next
  case (Cons c cs)
  show ?case
  proof (cases "proton_position name cs")
    case (Inl e')
    then show ?thesis using Cons by (auto split: if_splits option.splits)
  next
    case (Inr p)
    then show ?thesis using Cons.prems by (auto split: if_splits option.splits)
  qed
qed

lemma remove_connection_effect:
  assumes "remove_connection k s = (r, s1)"
  shows "(r = Inr () \<longrightarrow> Suc (length (managed_records k s1)) = length (managed_records k s))
       \<and> (r = Inl ConnectionNotFound \<longrightarrow> managed_records k s = [] \<and> connections s1 = connections s)
       \<and> (r \<noteq> Inr () \<longrightarrow> connections s1 = connections s)"
proof (cases "get_proton_connection k all_connections s")
  case (Inl e)
  then show ?thesis using assms
    by (auto simp: remove_connection_def get_proton_connection_def
        dest: proton_position_Inl)
next
  case (Inr pos)
  show ?thesis
  proof (cases pos)
    case None
    then have "managed_records k s = []"
      using Inr proton_position_None[of k "connections s"]
      by (simp add: get_proton_connection_def managed_records_def)
    then show ?thesis using assms Inr None by (auto simp: remove_connection_def)
  next
    case (Some i)
    then have i: "i < length (connections s)" "managed k (connections s ! i)"
      using Inr proton_position_Some[of k "connections s" i]
      by (simp_all add: get_proton_connection_def)
    obtain r0 s0 where st: "stop_connection k s = (r0, s0)" by (cases "stop_connection k s")
    have cs: "connections s0 = connections s"
      using stop_connection_connections[of k s] st by simp
    have nf: "r0 \<noteq> Inl ConnectionNotFound"
      using st by (auto simp: stop_connection_def finish_exception_def
          get_proton_connection_def dest: proton_position_Inl
          split: sum.splits option.splits if_splits)
    show ?thesis
    proof (cases r0)
      case (Inl e)
      then show ?thesis using assms Inr Some st cs nf by (auto simp: remove_connection_def)
    next
      case (Inr b)
      show ?thesis
      proof (cases "finish_raises k Remove")
        case True
        then show ?thesis using assms \<open>get_proton_connection k all_connections s = Inr pos\<close> Some st cs Inr
          by (auto simp: remove_connection_def finish_exception_def)
      next
        case False
        then have "s1 = s0\<lparr>connections := delete_at i (connections s0)\<rparr>" "r = Inr ()"
          using assms \<open>get_proton_connection k all_connections s = Inr pos\<close> Some st Inr
          by (auto simp: remove_connection_def)
        then show ?thesis using filter_delete_at[of i "connections s" "managed k"] i cs by (simp add: managed_records_def)
      qed
    qed
  qed
qed

lemma set_virtual_device_type_dev:
  "set_virtual_device_type k fls vs f = Inr vs' \<Longrightarrow>
   get_data_item ''dev'' vs' = Some (virtual_device_name k)"
  by (auto simp: set_virtual_device_type_def add_data_item_def get_data_item_def
      update_conv' split: sum.splits)


lemma probe_connections:
  "probe_delete_cached_cert d s = (r, s0) \<Longrightarrow> connections s0 = connections s"
  using run_delete_connections[of d "''test''" s]
  by (auto simp: probe_delete_cached_cert_def split: prod.splits sum.splits if_splits)

lemma remove_existing_effect:
  assumes "remove_existing k s = (r, s1)"
  shows "(r = Inr () \<longrightarrow>
            (managed_records k s1 = [] \<and> managed_records k s = [])
            \<or> Suc (length (managed_records k s1)) = length (managed_records k s))
       \<and> (r \<noteq> Inr () \<longrightarrow> connections s1 = connections s)"
proof -
  obtain rr s' where rem: "remove_connection k s = (rr, s')" by (cases "remove_connection k s")
  note eff = remove_connection_effect[OF rem]
  show ?thesis
  proof (cases rr)
    case (Inl e)
    then show ?thesis using assms rem eff
      by (cases "e = ConnectionNotFound") (auto simp: remove_existing_def managed_records_def)
  next
    case (Inr u)
    then show ?thesis using assms rem eff by (auto simp: remove_existing_def)
  qed
qed

text \<open>What \<open>add_connection\<close> does to the connections, path by path.\<close>

lemma add_connection_paths:
  assumes "add_connection k d s f u p = (r, s')"
  shows "(r \<noteq> Inr () \<and> connections s' = connections s)
       \<or> (\<exists>s1. r \<noteq> Inr ()
              \<and> ((managed_records k s1 = [] \<and> managed_records k s = [])
                  \<or> Suc (length (managed_records k s1)) = length (managed_records k s))
              \<and> connections s' = connections s1)
       \<or> (\<exists>s1 fls conn vs.
              ((managed_records k s1 = [] \<and> managed_records k s = [])
               \<or> Suc (length (managed_records k s1)) = length (managed_records k s))
              \<and> import_connection_from_file k fls f = Inr conn
              \<and> get_data_item ''dev'' vs = Some (virtual_device_name k)
              \<and> connections s' = connections s1 @ [conn\<lparr>get_setting_vpn := Some vs\<rparr>])"
proof (cases "strip f = [] \<or> strip u = [] \<or> strip p = []")
  case True
  then have "add_connection k d s f u p = (Inl ValueError, s)"
    by (auto simp: add_connection_def)
  then show ?thesis using assms by simp
next
  case valid: False
  obtain rp s0 where probe: "probe_delete_cached_cert d s = (rp, s0)"
    by (cases "probe_delete_cached_cert d s")
  have c0: "connections s0 = connections s" using probe_connections[OF probe] .
  then have m0: "managed_records k s0 = managed_records k s" by (simp add: managed_records_def)
  show ?thesis
  proof (cases rp)
    case (Inl e)
    then have "r \<noteq> Inr () \<and> s' = s0"
      using assms valid probe by (auto simp: add_connection_def)
    then show ?thesis using c0 by simp
  next
    case ok: (Inr x)
    show ?thesis
    proof (cases "import_connection_from_file k (files s0) f")
      case (Inl e)
      then have "r \<noteq> Inr () \<and> s' = s0"
        using assms valid probe ok by (auto simp: add_connection_def)
      then show ?thesis using c0 by simp
    next
      case imp: (Inr conn)
      show ?thesis
      proof (cases "get_setting_vpn conn")
        case None
        then have "r \<noteq> Inr () \<and> s' = s0"
          using assms valid probe ok imp by (auto simp: add_connection_def)
        then show ?thesis using c0 by simp
      next
        case (Some vs0)
        show ?thesis
        proof (cases "set_virtual_device_type k (files s0)
                        (add_secret ''password'' p (add_data_item ''username'' u vs0)) f")
          case (Inl e)
          then have "r \<noteq> Inr () \<and> s' = s0"
            using assms valid probe ok imp Some by (auto simp: add_connection_def)
          then show ?thesis using c0 by simp
        next
          case svt: (Inr vs)
          have dev: "get_data_item ''dev'' vs = Some (virtual_device_name k)"
            using set_virtual_device_type_dev[OF svt] .
          obtain rr s1 where rem: "remove_existing k s0 = (rr, s1)"
            by (cases "remove_existing k s0")
          note eff = remove_existing_effect[OF rem]
          show ?thesis
          proof (cases rr)
            case (Inl e)
            then have "r \<noteq> Inr () \<and> s' = s1"
              using assms valid probe ok imp Some svt rem by (auto simp: add_connection_def)
            then show ?thesis using eff Inl c0 by simp
          next
            case removed: (Inr y)
            then have cnt: "(managed_records k s1 = [] \<and> managed_records k s = [])
               \<or> Suc (length (managed_records k s1)) = length (managed_records k s)"
              using eff m0 by auto
            show ?thesis
            proof (cases "finish_raises k Add")
              case True
              then have "r \<noteq> Inr () \<and> s' = s1"
                using assms valid probe ok imp Some svt rem removed
                by (auto simp: add_connection_def finish_exception_def)
              then show ?thesis using cnt by blast
            next
              case accepted: False
              define s2 where "s2 = s1\<lparr>connections := connections s1 @
                                  [conn\<lparr>get_setting_vpn := Some vs\<rparr>]\<rparr>"
              have "(r, s') = (if \<not> ENV_CI k then run_delete_cached_cert d f s2 else (Inr (), s2))"
                using assms valid probe ok imp Some svt rem removed accepted
                by (auto simp: add_connection_def s2_def Let_def)
              then have "connections s' = connections s2"
                using run_delete_connections[of d f s2]
                by (cases "ENV_CI k") (auto dest: arg_cong[where f = snd])
              then have "connections s' = connections s1 @ [conn\<lparr>get_setting_vpn := Some vs\<rparr>]"
                by (simp add: s2_def)
              then show ?thesis using cnt dev imp by blast
            qed
          qed
        qed
      qed
    qed
  qed
qed


lemma add_connection_count:
  assumes add: "add_connection k d s f u p = (r, s')"
      and inv: "length (managed_records k s) \<le> 1"
      and imp: "\<forall>fls f conn. import_connection_from_file k fls f = Inr conn
                  \<longrightarrow> get_connection_type conn = ''vpn''"
  shows "length (managed_records k s') \<le> 1
       \<and> (r = Inr () \<longrightarrow> managed_records k s' = [last (connections s')])"
proof -
  consider
    (unchanged) "r \<noteq> Inr ()" "connections s' = connections s"
  | (removed) s1 where "r \<noteq> Inr ()" "connections s' = connections s1"
      "managed_records k s1 = [] \<and> managed_records k s = []
         \<or> Suc (length (managed_records k s1)) = length (managed_records k s)"
  | (added) s1 fls conn vs where
      "managed_records k s1 = [] \<and> managed_records k s = []
         \<or> Suc (length (managed_records k s1)) = length (managed_records k s)"
      "import_connection_from_file k fls f = Inr conn"
      "get_data_item ''dev'' vs = Some (virtual_device_name k)"
      "connections s' = connections s1 @ [conn\<lparr>get_setting_vpn := Some vs\<rparr>]"
    using add_connection_paths[OF add] by blast
  then show ?thesis
  proof cases
    case unchanged
    then show ?thesis using inv by (simp add: managed_records_def)
  next
    case removed
    then show ?thesis using inv by (auto simp: managed_records_def)
  next
    case added
    have e: "managed_records k s1 = []"
      using added(1) inv by (cases "managed_records k s1") auto
    have "get_connection_type conn = ''vpn''" using imp added(2) by blast
    then have m: "managed k (conn\<lparr>get_setting_vpn := Some vs\<rparr>)"
      using added(3) by (simp add: managed_def)
    have "managed_records k s' = [conn\<lparr>get_setting_vpn := Some vs\<rparr>]"
      using e m added(4) by (simp add: managed_records_def)
    then show ?thesis using added(4) by simp
  qed
qed

lemma remove_connection_count:
  "length (managed_records k (snd (remove_connection k s))) \<le> length (managed_records k s)"
proof -
  obtain r s1 where rem: "remove_connection k s = (r, s1)" by (cases "remove_connection k s")
  show ?thesis using remove_connection_effect[OF rem] rem
    by (cases "r = Inr ()") (auto simp: managed_records_def)
qed

lemma start_connection_connections:
  "connections (snd (start_connection k s)) = connections s"
  by (simp add: start_connection_def split: sum.splits option.splits)



text \<open>
  C4. Let at most one managed record exist, and let the plugin import profiles as
  connections of type \<open>vpn\<close>. Then after \<open>add_connection\<close>, whatever its outcome, at
  most one managed record exists, and after a successful one exactly one, the record
  just added; so after two successful calls in a row exactly one managed record exists,
  that of the second call. \<open>remove_connection\<close>, \<open>stop_connection\<close> and
  \<open>start_connection\<close> add no managed record.
\<close>

theorem add_connection_single_managed_record:
  assumes "length (managed_records k s) \<le> 1"
      and "\<forall>fls f conn. import_connection_from_file k fls f = Inr conn
              \<longrightarrow> get_connection_type conn = ''vpn''"
  shows "(add_connection k d s filename username password = (r, s1) \<longrightarrow>
            length (managed_records k s1) \<le> 1
            \<and> (r = Inr () \<longrightarrow> managed_records k s1 = [last (connections s1)]))
       \<and> (add_connection k d s filename username password = (Inr (), s1)
          \<and> add_connection k d s1 filename2 username2 password2 = (Inr (), s2) \<longrightarrow>
            length (managed_records k s1) = 1 \<and> length (managed_records k s2) = 1
            \<and> managed_records k s2 = [last (connections s2)])
       \<and> length (managed_records k (snd (remove_connection k s))) \<le> 1
       \<and> length (managed_records k (snd (stop_connection k s))) \<le> 1
       \<and> length (managed_records k (snd (start_connection k s))) \<le> 1"
proof (intro conjI impI)
  assume a: "add_connection k d s filename username password = (r, s1)"
  show "length (managed_records k s1) \<le> 1"
    using add_connection_count[OF a assms] by simp
  show "managed_records k s1 = [last (connections s1)]" if "r = Inr ()"
    using add_connection_count[OF a assms] that by simp
next
  assume h: "add_connection k d s filename username password = (Inr (), s1)
          \<and> add_connection k d s1 filename2 username2 password2 = (Inr (), s2)"
  then have a1: "add_connection k d s filename username password = (Inr (), s1)"
    and a2: "add_connection k d s1 filename2 username2 password2 = (Inr (), s2)" by simp_all
  have m1: "managed_records k s1 = [last (connections s1)]"
    using add_connection_count[OF a1 assms] by simp
  then have i1: "length (managed_records k s1) \<le> 1" by simp
  have m2: "managed_records k s2 = [last (connections s2)]"
    using add_connection_count[OF a2 i1 assms(2)] by simp
  show "length (managed_records k s1) = 1" using m1 by simp
  show "length (managed_records k s2) = 1" using m2 by simp
  show "managed_records k s2 = [last (connections s2)]" using m2 .
next
  show "length (managed_records k (snd (remove_connection k s))) \<le> 1"
    using remove_connection_count[of k s] assms(1) by simp
  show "length (managed_records k (snd (stop_connection k s))) \<le> 1"
    using stop_connection_connections[of k s] assms(1) by (simp add: managed_records_def)
  show "length (managed_records k (snd (start_connection k s))) \<le> 1"
    using start_connection_connections[of k s] assms(1) by (simp add: managed_records_def)
qed

lemmas nm_defs =
  add_connection_def probe_delete_cached_cert_def run_delete_cached_cert_def
  remove_existing_def remove_connection_def stop_connection_def get_proton_connection_def
  set_virtual_device_type_def extract_virtual_device_type_def device_type_of_lines_def
  add_data_item_def add_secret_def get_data_item_def finish_exception_def
  example_surroundings_def example_import_def example_delete_def example_nm_def
  strip_def lstrip_def

lemma example_first_add:
  "add_connection example_surroundings example_delete example_nm ''ch.ovpn'' ''user'' ''secret''
   = (Inr (),
      \<lparr>connections =
         [\<lparr>get_id = ''ch.ovpn'', get_connection_type = ''vpn'',
           get_setting_vpn = Some \<lparr>data = [(''dev'', ''proton0''), (''username'', ''user''),
                                           (''dev-type'', ''tun'')],
                                   secrets = [(''password'', ''secret'')]\<rparr>\<rparr>],
       active_connections = [],
       files = (files example_nm)(''ch.ovpn'' := None)\<rparr>)"
  by (simp add: nm_defs readlines_profile_text str_defs)


lemma example_second_add:
  "add_connection example_surroundings example_delete
     \<lparr>connections =
         [\<lparr>get_id = ''ch.ovpn'', get_connection_type = ''vpn'',
           get_setting_vpn = Some \<lparr>data = [(''dev'', ''proton0''), (''username'', ''user''),
                                           (''dev-type'', ''tun'')],
                                   secrets = [(''password'', ''secret'')]\<rparr>\<rparr>],
       active_connections = [],
       files = (files example_nm)(''ch.ovpn'' := None)\<rparr>
     ''se.ovpn'' ''user'' ''secret''
   = (Inr (),
      \<lparr>connections =
         [\<lparr>get_id = ''se.ovpn'', get_connection_type = ''vpn'',
           get_setting_vpn = Some \<lparr>data = [(''dev'', ''proton0''), (''username'', ''user''),
                                           (''dev-type'', ''tun'')],
                                   secrets = [(''password'', ''secret'')]\<rparr>\<rparr>],
       active_connections = [],
       files = (files example_nm)(''ch.ovpn'' := None, ''se.ovpn'' := None)\<rparr>)"
  by (simp add: nm_defs readlines_profile_text str_defs delete_at_def)

lemma example_import_vpn:
  "\<forall>fls f conn. import_connection_from_file example_surroundings fls f = Inr conn
      \<longrightarrow> get_connection_type conn = ''vpn''"
  by (auto simp: example_surroundings_def example_import_def split: option.splits)

theorem add_connection_single_managed_record_witness:
  "length (managed_records example_surroundings
     (snd (add_connection example_surroundings example_delete
        (snd (add_connection example_surroundings example_delete example_nm
                ''ch.ovpn'' ''user'' ''secret''))
        ''se.ovpn'' ''user'' ''secret''))) = 1
   \<and> map get_id (connections
     (snd (add_connection example_surroundings example_delete
        (snd (add_connection example_surroundings example_delete example_nm
                ''ch.ovpn'' ''user'' ''secret''))
        ''se.ovpn'' ''user'' ''secret''))) = [''se.ovpn'']"
proof -
  let ?s1 = "snd (add_connection example_surroundings example_delete example_nm
                ''ch.ovpn'' ''user'' ''secret'')"
  let ?s2 = "snd (add_connection example_surroundings example_delete ?s1
                ''se.ovpn'' ''user'' ''secret'')"
  have inv: "length (managed_records example_surroundings example_nm) \<le> 1"
    by (simp add: managed_records_def example_nm_def)
  have a1: "add_connection example_surroundings example_delete example_nm
              ''ch.ovpn'' ''user'' ''secret'' = (Inr (), ?s1)"
    by (simp add: example_first_add)
  have a2: "add_connection example_surroundings example_delete ?s1
              ''se.ovpn'' ''user'' ''secret'' = (Inr (), ?s2)"
    by (simp add: example_first_add example_second_add)
  have "length (managed_records example_surroundings ?s2) = 1"
    using add_connection_single_managed_record [OF inv example_import_vpn,
        where d = example_delete and filename = "''ch.ovpn''" and username = "''user''"
          and password = "''secret''" and ?filename2.0 = "''se.ovpn''"
          and ?username2.0 = "''user''" and ?password2.0 = "''secret''"
          and ?s1.0 = ?s1 and ?s2.0 = ?s2,
        THEN conjunct2, THEN conjunct1] a1 a2
    by blast
  moreover have "map get_id (connections ?s2) = [''se.ovpn'']"
    by (simp add: example_first_add example_second_add)
  ultimately show ?thesis by blast
qed


section \<open>Normal forms of servernames\<close>


lemma return_servername_more_examples:
  "return_servername ''CH-FREE#1'' = Some ''CH-FREE#1''"
  "return_servername ''PT1TOR'' = Some ''PT#1-TOR''"
  "return_servername ''PT-1-TOR'' = Some ''PT#1-TOR''"
  "return_servername (''PT#1'' @ [LF]) = Some ''PT#1''"
  "return_servername (''PT#1'' @ [LF, LF]) = None"
  "return_servername ''PT1234'' = None"
  "return_servername ''123'' = Some ''12#3''"
  "return_servername ''US-CA#007'' = Some ''US-CA#7''"
  by (simp_all add: re_defs)

lemma two_word_Some:
  "two_word s = Some (cc, r) \<Longrightarrow> \<exists>a b. cc = [a, b] \<and> re_word a \<and> re_word b \<and> s = a # b # r"
  by (auto simp: two_word_def split: list.splits if_splits)

lemma two_upper_Some:
  "two_upper s = Some (cc, r) \<Longrightarrow> \<exists>a b. cc = [a, b] \<and> re_upper a \<and> re_upper b \<and> s = a # b # r"
  by (auto simp: two_upper_def split: list.splits if_splits)

lemma digits_1_3_Some:
  "digits_1_3 s = Some (d, r) \<Longrightarrow> d \<noteq> [] \<and> length d \<le> 3 \<and> (\<forall>c\<in>set d. re_digit c)"
proof -
  assume a: "digits_1_3 s = Some (d, r)"
  then have d: "d = takeWhile re_digit (take 3 s)" "d \<noteq> []"
    by (auto simp: digits_1_3_def Let_def split: if_splits)
  have "length d \<le> length (take 3 s)" unfolding d(1) by (rule length_takeWhile_le)
  then have "length d \<le> 3" by simp
  moreover have "\<forall>c\<in>set d. re_digit c" unfolding d(1) by (auto dest: set_takeWhileD)
  ultimately show ?thesis using d(2) by simp
qed

lemma number_tail_Some:
  "number_tail s = Some (num, tor) \<Longrightarrow>
   num \<noteq> [] \<and> length num \<le> 3 \<and> (\<forall>c\<in>set num. re_digit c) \<and> (tor = None \<or> tor = Some ''TOR'')"
  by (auto simp: number_tail_def opt_TOR_def split: option.splits prod.splits if_splits
      dest: digits_1_3_Some)

lemma lstrip_zeros_digits:
  assumes "length num \<le> 3" "\<forall>c\<in>set num. re_digit c"
  shows "length (lstrip_zeros num) \<le> 3 \<and> (\<forall>c\<in>set (lstrip_zeros num). re_digit c)
       \<and> lstrip_zeros (lstrip_zeros num) = lstrip_zeros num"
proof -
  have "length (lstrip_zeros num) \<le> length num"
    by (simp add: lstrip_zeros_def length_dropWhile_le)
  moreover have "set (lstrip_zeros num) \<subseteq> set num"
    by (auto simp: lstrip_zeros_def dest: set_dropWhileD)
  ultimately show ?thesis using assms by (auto simp: lstrip_zeros_def)
qed

lemma dash_not_digit: "\<not> re_digit CHR ''-''" "\<not> re_upper CHR ''-''" "\<not> re_digit CHR ''#''"
  by (simp_all add: re_digit_def re_upper_def code_def)

lemma upper_not_digit: "re_upper c \<Longrightarrow> \<not> re_digit c \<and> c \<noteq> CHR ''-'' \<and> c \<noteq> CHR ''#''"
  by (auto simp: re_upper_def re_digit_def code_def)

lemma digit_not_sep: "re_digit c \<Longrightarrow> c \<noteq> CHR ''-'' \<and> c \<noteq> CHR ''#'' \<and> \<not> re_upper c"
  by (auto simp: re_upper_def re_digit_def code_def)

lemma digits_1_3_canonical:
  assumes "d \<noteq> []" "length d \<le> 3" "\<forall>c\<in>set d. re_digit c" "tor = None \<or> tor = Some ''TOR''"
  shows "digits_1_3 (d @ tor_suffix tor) = Some (d, tor_suffix tor)"
proof -
  have "takeWhile re_digit (take 3 (d @ tor_suffix tor)) = d"
  proof (cases tor)
    case None
    then show ?thesis using assms by (simp add: tor_suffix_def)
  next
    case (Some t)
    then have t: "tor_suffix tor = CHR ''-'' # ''TOR''" using assms(4) by (simp add: tor_suffix_def)
    have "take 3 (d @ tor_suffix tor) = d @ take (3 - length d) (tor_suffix tor)"
      using assms(2) by simp
    moreover have "takeWhile re_digit (d @ take (3 - length d) (tor_suffix tor)) = d"
      using assms(3) t dash_not_digit
      by (cases "3 - length d") (auto simp: takeWhile_append2 takeWhile_eq_all_conv)
    ultimately show ?thesis by simp
  qed
  then show ?thesis using assms(1) by (simp add: digits_1_3_def Let_def)
qed

lemma number_tail_canonical:
  assumes "d \<noteq> []" "length d \<le> 3" "\<forall>c\<in>set d. re_digit c" "tor = None \<or> tor = Some ''TOR''"
  shows "number_tail (d @ tor_suffix tor) = Some (d, tor)"
  using digits_1_3_canonical[OF assms] assms(4)
  by (auto simp: number_tail_def tor_suffix_def opt_dash_def opt_TOR_def startswith_def at_end_def)



lemma sep_number_tail_canonical:
  assumes "d \<noteq> []" "length d \<le> 3" "\<forall>c\<in>set d. re_digit c" "tor = None \<or> tor = Some ''TOR''"
  shows "sep_number_tail (CHR ''#'' # d @ tor_suffix tor) = Some (d, tor)"
  using number_tail_canonical[OF assms] by (simp add: sep_number_tail_def opt_sep_def)

lemma number_tail_no_digit:
  "\<not> re_digit c \<Longrightarrow> number_tail (c # s) = None"
  by (simp add: number_tail_def digits_1_3_def)

lemma code2_tail_Some:
  assumes "code2_tail s = Some (cc2, num, tor)"
  shows "((\<exists>c e. cc2 = [c, e] \<and> re_upper c \<and> re_upper e) \<or> cc2 = ''FREE'')
       \<and> num \<noteq> [] \<and> length num \<le> 3 \<and> (\<forall>c\<in>set num. re_digit c)
       \<and> (tor = None \<or> tor = Some ''TOR'')"
proof (cases "case two_upper s of None \<Rightarrow> None
              | Some (cc2, r) \<Rightarrow> map_option (Pair cc2) (sep_number_tail r)")
  case None
  then have "startswith s ''FREE''"
     and "map_option (Pair ''FREE'') (sep_number_tail (drop 4 s)) = Some (cc2, num, tor)"
    using assms by (auto simp: code2_tail_def split: if_splits)
  then show ?thesis
    using number_tail_Some[of _ num tor] by (auto simp: sep_number_tail_def)
next
  case (Some g)
  then have g: "g = (cc2, num, tor)" using assms by (simp add: code2_tail_def)
  from Some obtain c2 r where t: "two_upper s = Some (c2, r)"
    and m: "map_option (Pair c2) (sep_number_tail r) = Some g"
    by (auto split: option.splits)
  then have "c2 = cc2" "sep_number_tail r = Some (num, tor)" using g by auto
  then show ?thesis
    using two_upper_Some[OF t] number_tail_Some[of _ num tor] by (auto simp: sep_number_tail_def)
qed

lemma code2_tail_canonical:
  assumes "(\<exists>c e. cc2 = [c, e] \<and> re_upper c \<and> re_upper e) \<or> cc2 = ''FREE''"
      and "d \<noteq> []" "length d \<le> 3" "\<forall>c\<in>set d. re_digit c" "tor = None \<or> tor = Some ''TOR''"
  shows "code2_tail (cc2 @ CHR ''#'' # d @ tor_suffix tor) = Some (cc2, d, tor)"
  using assms(1)
proof
  assume "\<exists>c e. cc2 = [c, e] \<and> re_upper c \<and> re_upper e"
  then obtain c e where "cc2 = [c, e]" "re_upper c" "re_upper e" by blast
  then show ?thesis
    using sep_number_tail_canonical[OF assms(2-5)]
    by (simp add: code2_tail_def two_upper_def)
next
  assume f: "cc2 = ''FREE''"
  have "sep_number_tail (''EE'' @ CHR ''#'' # d @ tor_suffix tor) = None"
    by (simp add: sep_number_tail_def opt_sep_def number_tail_no_digit re_digit_def code_def)
  then show ?thesis
    using sep_number_tail_canonical[OF assms(2-5)] f
    by (simp add: code2_tail_def two_upper_def re_upper_def code_def startswith_def)
qed

text \<open>
  Where the number of an accepted servername has a digit other than zero, the normal
  form is accepted and is its own normal form.
\<close>

lemma return_servername_short_fixed:
  assumes "re_short x = Some (cc, num, tor)" "lstrip_zeros num \<noteq> []"
  shows "return_servername ((cc @ ''#'' @ lstrip_zeros num) @ tor_suffix tor)
           = Some ((cc @ ''#'' @ lstrip_zeros num) @ tor_suffix tor)"
proof -
  from assms(1) obtain r1 where tw: "two_word x = Some (cc, r1)"
    and nt: "number_tail (snd (opt_sep r1)) = Some (num, tor)"
    by (auto simp: re_short_def split: option.splits)
  obtain a b where cc: "cc = [a, b]" "re_word a" "re_word b"
    using two_word_Some[OF tw] by blast
  note p = number_tail_Some[OF nt]
  define d where "d = lstrip_zeros num"
  have dp: "d \<noteq> []" "length d \<le> 3" "\<forall>c\<in>set d. re_digit c" "lstrip_zeros d = d"
    using lstrip_zeros_digits[of num] p assms(2) by (auto simp: d_def)
  have tor: "tor = None \<or> tor = Some ''TOR''" using p by simp
  have "re_short ((cc @ ''#'' @ d) @ tor_suffix tor) = Some (cc, d, tor)"
    using number_tail_canonical[OF dp(1-3) tor] cc
    by (simp add: re_short_def two_word_def opt_sep_def)
  then show ?thesis using dp(4) by (simp add: return_servername_def d_def)
qed

lemma return_servername_long_fixed:
  assumes "re_long x = Some (cc, cc2, num, tor)" "lstrip_zeros num \<noteq> []"
  shows "return_servername ((cc @ ''-'' @ cc2 @ ''#'' @ lstrip_zeros num) @ tor_suffix tor)
           = Some ((cc @ ''-'' @ cc2 @ ''#'' @ lstrip_zeros num) @ tor_suffix tor)"
proof -
  from assms(1) obtain r1 where tw: "two_word x = Some (cc, r1)"
    and ct: "code2_tail (snd (opt_sep r1)) = Some (cc2, num, tor)"
    by (auto simp: re_long_def split: option.splits)
  obtain a b where cc: "cc = [a, b]" "re_word a" "re_word b"
    using two_word_Some[OF tw] by blast
  note p = code2_tail_Some[OF ct]
  define d where "d = lstrip_zeros num"
  have dp: "d \<noteq> []" "length d \<le> 3" "\<forall>c\<in>set d. re_digit c" "lstrip_zeros d = d"
    using lstrip_zeros_digits[of num] p assms(2) by (auto simp: d_def)
  have tor: "tor = None \<or> tor = Some ''TOR''" using p by simp
  have c2: "(\<exists>c e. cc2 = [c, e] \<and> re_upper c \<and> re_upper e) \<or> cc2 = ''FREE''" using p by simp
  have c2h: "\<exists>c rest. cc2 = c # rest \<and> \<not> re_digit c"
    using c2
  proof
    assume "\<exists>c e. cc2 = [c, e] \<and> re_upper c \<and> re_upper e"
    then obtain c e where "cc2 = [c, e]" "re_upper c" by blast
    then show ?thesis using upper_not_digit[of c] by blast
  next
    assume "cc2 = ''FREE''"
    moreover have "\<not> re_digit CHR ''F''" by (simp add: re_digit_def code_def)
    ultimately show ?thesis by blast
  qed
  then obtain c rest where c2h: "cc2 = c # rest" "\<not> re_digit c" by blast
  have short: "re_short ((cc @ ''-'' @ cc2 @ ''#'' @ d) @ tor_suffix tor) = None"
    using cc c2h by (simp add: re_short_def two_word_def opt_sep_def number_tail_no_digit)
  have "re_long ((cc @ ''-'' @ cc2 @ ''#'' @ d) @ tor_suffix tor) = Some (cc, cc2, d, tor)"
    using code2_tail_canonical[OF c2 dp(1-3) tor] cc
    by (simp add: re_long_def two_word_def opt_sep_def)
  then show ?thesis using short dp(4) by (simp add: return_servername_def d_def)
qed

lemma return_servername_idempotent_nonzero:
  assumes "return_servername x = Some n" "servername_number x = Some number"
      and "lstrip_zeros number \<noteq> []"
  shows "return_servername n = Some n"
proof (cases "re_short x")
  case (Some g)
  then obtain cc num tor where g: "re_short x = Some (cc, num, tor)" by (cases g) auto
  then have "num = number" "n = (cc @ ''#'' @ lstrip_zeros num) @ tor_suffix tor"
    using assms(1,2) by (auto simp: return_servername_def servername_number_def)
  then show ?thesis using return_servername_short_fixed[OF g] assms(3) by simp
next
  case None
  then obtain cc cc2 num tor where g: "re_long x = Some (cc, cc2, num, tor)"
    using assms(1) by (auto simp: return_servername_def split: option.splits)
  then have "num = number"
      "n = (cc @ ''-'' @ cc2 @ ''#'' @ lstrip_zeros num) @ tor_suffix tor"
    using assms(1,2) None by (auto simp: return_servername_def servername_number_def)
  then show ?thesis using return_servername_long_fixed[OF g] assms(3) by simp
qed


lemma return_servername_idempotent_example:
  "return_servername ''US-CA#007'' = Some ''US-CA#7''
   \<and> return_servername ''US-CA#7'' = Some ''US-CA#7''"
proof -
  have "return_servername ''US-CA#007'' = Some ''US-CA#7''"
    and "servername_number ''US-CA#007'' = Some ''007''"
    and "lstrip_zeros ''007'' \<noteq> []"
    by (simp_all add: servername_number_def re_defs)
  then show ?thesis using return_servername_idempotent_nonzero by blast
qed

end
